theory Spec2Isabelle
  imports Main "HOL-Library.AList"
begin

section \<open>The chat session hook \<open>useChat\<close> (src/hooks/use-chat.ts)\<close>

text \<open>
  The hook keeps two logs in React state, \<open>messages\<close> and \<open>conversationHistory\<close>, restores
  them from \<open>localStorage\<close> when the component mounts and writes them back from two effects.
  The restored data is whatever \<open>JSON.parse\<close> returns: the TypeScript types \<open>Message[]\<close> and
  \<open>ChatMessage[]\<close> are not checked at run time. The model therefore works on run-time
  values, and a \<open>Message\<close> or a \<open>ChatMessage\<close> is an object of the right shape.
\<close>

subsection \<open>Run-time values and exceptions\<close>

text \<open>
  \<open>JNum\<close> carries the integer-valued numbers only; \<open>JDate\<close> carries the time value of a
  \<open>Date\<close> in milliseconds, \<open>None\<close> for an invalid date. An object is its list of own
  enumerable properties in creation order.
\<close>

datatype jsval =
    JUndefined
  | JNull
  | JBool bool
  | JNum int
  | JStr string
  | JArr "jsval list"
  | JObj "(string \<times> jsval) list"
  | JDate "int option"

datatype js_error = TypeError | SyntaxError | SecurityError | QuotaExceededError

text \<open>
  A call either returns or throws. A throw does not undo the state changes made before it,
  so operations that can throw return the outcome together with the state they leave.
\<close>

datatype 'a outcome = Returned 'a | Thrown js_error

subsection \<open>Number to string\<close>

text \<open>\<open>Number.prototype.toString()\<close> on an integer: its decimal digits, with a minus sign.\<close>

definition digit_char :: "nat \<Rightarrow> char" where
  "digit_char d = ''0123456789'' ! d"

function decimal :: "int \<Rightarrow> string" where
  "decimal n =
     (if n < 10 then [digit_char (nat n)]
      else decimal (n div 10) @ [digit_char (nat (n mod 10))])"
  by pat_completeness auto
termination
  by (relation "measure nat") auto

declare decimal.simps [simp del]

definition int_toString :: "int \<Rightarrow> string" where
  "int_toString i = (if i < 0 then CHR ''-'' # decimal (- i) else decimal i)"

subsection \<open>The argument of \<open>addMessage\<close>\<close>

text \<open>
  \<open>sender: 'user' | 'bot'\<close> and \<open>Omit<Message, "id" | "timestamp">\<close>, the type of the
  argument of \<open>addMessage\<close>: the fields \<open>content\<close>, \<open>sender\<close> and the optional \<open>isLoading\<close>.
\<close>

datatype sender = SenderUser | SenderBot

definition sender_str :: "sender \<Rightarrow> string" where
  "sender_str s = (case s of SenderUser \<Rightarrow> ''user'' | SenderBot \<Rightarrow> ''bot'')"

record MessageInput =
  content :: string
  sender :: sender
  isLoading :: "bool option"

text \<open>The object a caller passes, as in \<open>addMessage({ content: text, sender: "user" })\<close>.\<close>

definition MessageInput_props :: "MessageInput \<Rightarrow> (string \<times> jsval) list" where
  "MessageInput_props m =
     [(''content'', JStr (content m)), (''sender'', JStr (sender_str (sender m)))]
     @ (case isLoading m of None \<Rightarrow> [] | Some b \<Rightarrow> [(''isLoading'', JBool b)])"

subsection \<open>Property access, spread and \<open>slice\<close>\<close>

text \<open>
  \<open>v[k]\<close> on an object built from a property list; an absent property reads as
  \<open>undefined\<close>.
\<close>

definition get_prop :: "string \<Rightarrow> jsval \<Rightarrow> jsval" where
  "get_prop k v =
     (case v of
        JObj ps \<Rightarrow> (case map_of ps k of None \<Rightarrow> JUndefined | Some x \<Rightarrow> x)
      | _ \<Rightarrow> JUndefined)"

text \<open>
  \<open>msg.timestamp\<close>: reading a property of \<open>null\<close> or \<open>undefined\<close> throws a TypeError;
  numbers, booleans, strings, arrays and dates have no property of that name.
\<close>

definition get_timestamp :: "jsval \<Rightarrow> js_error + jsval" where
  "get_timestamp msg =
     (case msg of
        JNull \<Rightarrow> Inl TypeError
      | JUndefined \<Rightarrow> Inl TypeError
      | _ \<Rightarrow> Inr (get_prop ''timestamp'' msg))"

definition index_keys :: "nat \<Rightarrow> string list" where
  "index_keys n = map (\<lambda>i. int_toString (int i)) [0..<n]"

text \<open>
  \<open>{...v}\<close>: the own enumerable properties of \<open>v\<close>. Arrays and strings contribute their
  indices, the other primitives and dates nothing.
\<close>

definition spread :: "jsval \<Rightarrow> (string \<times> jsval) list" where
  "spread v =
     (case v of
        JObj ps \<Rightarrow> ps
      | JArr xs \<Rightarrow> zip (index_keys (length xs)) xs
      | JStr s \<Rightarrow> zip (index_keys (length s)) (map (\<lambda>c. JStr [c]) s)
      | _ \<Rightarrow> [])"

text \<open>
  \<open>[...v]\<close>: arrays and strings are iterable; spreading anything else the model can hold
  throws a TypeError.
\<close>

definition iterate :: "jsval \<Rightarrow> js_error + jsval list" where
  "iterate v =
     (case v of
        JArr xs \<Rightarrow> Inr xs
      | JStr s \<Rightarrow> Inr (map (\<lambda>c. JStr [c]) s)
      | _ \<Rightarrow> Inl TypeError)"

text \<open>
  \<open>xs.slice(start)\<close>: a negative \<open>start\<close> counts from the end, clamped at the front; a
  non-negative one is clamped at the length. \<open>-0\<close> is \<open>0\<close>, so \<open>slice(-0)\<close> is the whole
  array.
\<close>

definition js_slice :: "int \<Rightarrow> 'a list \<Rightarrow> 'a list" where
  "js_slice start xs =
     (let len = int (length xs);
          k = (if start < 0 then max (len + start) 0 else min start len)
      in drop (nat k) xs)"

subsection \<open>The browser: \<open>JSON\<close>, \<open>Date\<close>, clock, random source and \<open>localStorage\<close>\<close>

text \<open>
  The built-in functions the hook calls are parameters of the model: \<open>JSON.parse\<close> (\<open>None\<close>
  when it throws a SyntaxError), \<open>JSON.stringify\<close>, \<open>Date.parse\<close> (\<open>None\<close> for \<open>NaN\<close>),
  \<open>Date.prototype.toISOString\<close> and the string an object or array converts to (where the
  conversion does not throw).
\<close>

record platform =
  JSON_parse :: "string \<Rightarrow> jsval option"
  JSON_stringify :: "jsval \<Rightarrow> string"
  Date_parse :: "string \<Rightarrow> int option"
  toISOString :: "int \<Rightarrow> string"
  ToString :: "jsval \<Rightarrow> string"

definition TimeClip :: "int \<Rightarrow> int option" where
  "TimeClip n = (if \<bar>n\<bar> \<le> 8640000000000000 then Some n else None)"

text \<open>
  Converting a parsed object or array to a primitive, as \<open>new Date(value)\<close> does first. A
  parsed object inherits \<open>valueOf\<close>, which returns the object itself, and \<open>toString\<close>, which
  returns a string; an own property \<open>toString\<close> hides the inherited method and, being parsed
  data, is not callable, so no method yields a primitive and the conversion throws a
  TypeError. An array is joined from the strings of its elements (\<open>null\<close> gives the empty
  string), so it throws when an element does.
\<close>

fun ToPrimitive_throws :: "jsval \<Rightarrow> bool" where
  "ToPrimitive_throws (JObj ps) = (''toString'' \<in> set (map fst ps))"
| "ToPrimitive_throws (JArr xs) = list_ex ToPrimitive_throws xs"
| "ToPrimitive_throws v = False"

text \<open>
  \<open>new Date(value)\<close>: a string is parsed, any other primitive is converted to a number
  (\<open>undefined\<close> to \<open>NaN\<close>, \<open>null\<close> to \<open>0\<close>), an object or array goes through its string form
  and throws where that conversion throws.
\<close>

definition new_Date :: "platform \<Rightarrow> jsval \<Rightarrow> js_error + int option" where
  "new_Date P v =
     (case v of
        JUndefined \<Rightarrow> Inr None
      | JNull \<Rightarrow> Inr (Some 0)
      | JBool b \<Rightarrow> Inr (Some (if b then 1 else 0))
      | JNum n \<Rightarrow> Inr (TimeClip n)
      | JStr s \<Rightarrow> Inr (Date_parse P s)
      | JDate t \<Rightarrow> Inr t
      | _ \<Rightarrow> if ToPrimitive_throws v then Inl TypeError
             else Inr (Date_parse P (ToString P v)))"

text \<open>
  What one call reads from its environment: \<open>Date.now()\<close>, the string
  \<open>Math.random().toString(36).substr(2, 9)\<close> and the time value of \<open>new Date()\<close>.
\<close>

record env =
  Date_now :: int
  random_suffix :: string
  current_time :: int

text \<open>
  \<open>localStorage\<close>: its entries, whether the page may access it at all (every access throws
  a SecurityError otherwise) and whether its quota is used up (\<open>setItem\<close> throws a
  QuotaExceededError then).
\<close>

record localStorage =
  items :: "string \<rightharpoonup> string"
  accessible :: bool
  quota_exceeded :: bool

definition getItem :: "localStorage \<Rightarrow> string \<Rightarrow> js_error + string option" where
  "getItem ls k = (if accessible ls then Inr (items ls k) else Inl SecurityError)"

definition setItem :: "localStorage \<Rightarrow> string \<Rightarrow> string \<Rightarrow> js_error + localStorage" where
  "setItem ls k v =
     (if \<not> accessible ls then Inl SecurityError
      else if quota_exceeded ls then Inl QuotaExceededError
      else Inr (ls\<lparr>items := (items ls)(k \<mapsto> v)\<rparr>))"

definition removeItem :: "localStorage \<Rightarrow> string \<Rightarrow> js_error + localStorage" where
  "removeItem ls k =
     (if accessible ls then Inr (ls\<lparr>items := (items ls)(k := None)\<rparr>) else Inl SecurityError)"

subsection \<open>Options and state of the hook\<close>

text \<open>
  \<open>UseChatOptions\<close> with its defaults filled in. \<open>maxHistoryLength\<close> is a \<open>number\<close>; the
  model covers the integers, negative ones included.
\<close>

record options =
  storageKey :: string
  maxHistoryLength :: int

definition default_options :: options where
  "default_options = \<lparr>storageKey = ''skincare-chat-history'', maxHistoryLength = 50\<rparr>"

definition messages_key :: "options \<Rightarrow> string" where
  "messages_key opts = storageKey opts @ ''-messages''"

definition conversation_key :: "options \<Rightarrow> string" where
  "conversation_key opts = storageKey opts @ ''-conversation''"

record chat =
  messages :: "jsval list"
  conversationHistory :: jsval

subsection \<open>Initial state (lines 20-52)\<close>

text \<open>\<open>xs.map(f)\<close> with a callback that may throw: the first throw ends the call.\<close>

fun Array_map :: "('a \<Rightarrow> js_error + 'b) \<Rightarrow> 'a list \<Rightarrow> js_error + 'b list" where
  "Array_map f [] = Inr []"
| "Array_map f (x # xs) =
     (case f x of
        Inl e \<Rightarrow> Inl e
      | Inr y \<Rightarrow> (case Array_map f xs of Inl e \<Rightarrow> Inl e | Inr ys \<Rightarrow> Inr (y # ys)))"

text \<open>The callback \<open>(msg) => ({ ...msg, timestamp: new Date(msg.timestamp) })\<close>.\<close>

definition revive :: "platform \<Rightarrow> jsval \<Rightarrow> js_error + jsval" where
  "revive P msg =
     (case get_timestamp msg of
        Inl e \<Rightarrow> Inl e
      | Inr t \<Rightarrow>
          (case new_Date P t of
             Inl e \<Rightarrow> Inl e
           | Inr d \<Rightarrow> Inr (JObj (AList.update ''timestamp'' (JDate d) (spread msg)))))"

text \<open>\<open>parsed.map(...)\<close>: only an array has a method \<open>map\<close>.\<close>

definition parsed_map :: "platform \<Rightarrow> jsval \<Rightarrow> js_error + jsval list" where
  "parsed_map P parsed =
     (case parsed of JArr xs \<Rightarrow> Array_map (revive P) xs | _ \<Rightarrow> Inl TypeError)"

definition welcome_content :: string where
  "welcome_content = ''Hi! I'' @ [CHR 0x27] @ ''m your AI-powered skincare consultant. I can help you with skincare routines, product recommendations, ingredient questions, and skin concerns. What would you like to know about skincare today?''"

definition welcome_message :: "env \<Rightarrow> jsval" where
  "welcome_message e =
     JObj [(''id'', JStr ''initial''),
           (''content'', JStr welcome_content),
           (''sender'', JStr ''bot''),
           (''timestamp'', JDate (Some (current_time e)))]"

text \<open>
  The initialiser of \<open>messages\<close>. \<open>getItem\<close> is called outside the \<open>try\<close>; the \<open>try\<close> covers
  \<open>JSON.parse\<close> and the \<open>map\<close>, and whatever either throws ends in the default list.
\<close>

definition initial_messages ::
  "platform \<Rightarrow> options \<Rightarrow> env \<Rightarrow> localStorage \<Rightarrow> js_error + jsval list" where
  "initial_messages P opts e ls =
     (case getItem ls (messages_key opts) of
        Inl err \<Rightarrow> Inl err
      | Inr savedMessages \<Rightarrow>
          (case savedMessages of
             None \<Rightarrow> Inr [welcome_message e]
           | Some s \<Rightarrow>
               if s = [] then Inr [welcome_message e]
               else (case JSON_parse P s of
                       None \<Rightarrow> Inr [welcome_message e]
                     | Some parsed \<Rightarrow>
                         (case parsed_map P parsed of
                            Inl err \<Rightarrow> Inr [welcome_message e]
                          | Inr ms \<Rightarrow> Inr ms))))"

text \<open>The initialiser of \<open>conversationHistory\<close>: the parsed value is returned as it is.\<close>

definition initial_conversation ::
  "platform \<Rightarrow> options \<Rightarrow> localStorage \<Rightarrow> js_error + jsval" where
  "initial_conversation P opts ls =
     (case getItem ls (conversation_key opts) of
        Inl err \<Rightarrow> Inl err
      | Inr savedHistory \<Rightarrow>
          (case savedHistory of
             None \<Rightarrow> Inr (JArr [])
           | Some s \<Rightarrow>
               if s = [] then Inr (JArr [])
               else (case JSON_parse P s of None \<Rightarrow> Inr (JArr []) | Some parsed \<Rightarrow> Inr parsed)))"

text \<open>The two initialisers in order, as the first render runs them.\<close>

definition initialize :: "platform \<Rightarrow> options \<Rightarrow> env \<Rightarrow> localStorage \<Rightarrow> js_error + chat" where
  "initialize P opts e ls =
     (case initial_messages P opts e ls of
        Inl err \<Rightarrow> Inl err
      | Inr ms \<Rightarrow>
          (case initial_conversation P opts ls of
             Inl err \<Rightarrow> Inl err
           | Inr h \<Rightarrow> Inr \<lparr>messages = ms, conversationHistory = h\<rparr>))"

subsection \<open>The persistence effects (lines 54-62)\<close>

text \<open>
  React runs an effect after a render in which one of its dependencies changed: both after
  mounting and after \<open>clearChat\<close>, the first after \<open>addMessage\<close>, the second after
  \<open>updateConversationHistory\<close>. Neither effect has a \<open>try\<close> around \<open>setItem\<close>.
\<close>

definition persist_messages ::
  "platform \<Rightarrow> options \<Rightarrow> chat \<Rightarrow> localStorage \<Rightarrow> js_error + localStorage" where
  "persist_messages P opts st ls =
     setItem ls (messages_key opts) (JSON_stringify P (JArr (messages st)))"

definition persist_conversation ::
  "platform \<Rightarrow> options \<Rightarrow> chat \<Rightarrow> localStorage \<Rightarrow> js_error + localStorage" where
  "persist_conversation P opts st ls =
     setItem ls (conversation_key opts) (JSON_stringify P (conversationHistory st))"

text \<open>
  Both effects, as they run after a render in which both logs changed; the first exception
  is the one reported.
\<close>

definition run_effects ::
  "platform \<Rightarrow> options \<Rightarrow> chat \<Rightarrow> localStorage \<Rightarrow> js_error + localStorage" where
  "run_effects P opts st ls =
     (case persist_messages P opts st ls of
        Inl err \<Rightarrow> Inl err
      | Inr ls' \<Rightarrow> persist_conversation P opts st ls')"

subsection \<open>\<open>addMessage\<close> (lines 64-81)\<close>

definition new_id :: "env \<Rightarrow> string" where
  "new_id e = int_toString (Date_now e) @ random_suffix e"

definition newMessage :: "env \<Rightarrow> MessageInput \<Rightarrow> jsval" where
  "newMessage e message =
     JObj (AList.update ''timestamp'' (JDate (Some (current_time e)))
            (AList.update ''id'' (JStr (new_id e)) (MessageInput_props message)))"

text \<open>The function passed to \<open>setMessages\<close>.\<close>

definition append_message :: "options \<Rightarrow> jsval \<Rightarrow> jsval list \<Rightarrow> jsval list" where
  "append_message opts m prev =
     (let updated = prev @ [m]
      in if int (length updated) > maxHistoryLength opts
         then js_slice (- maxHistoryLength opts) updated
         else updated)"

definition addMessage :: "options \<Rightarrow> env \<Rightarrow> MessageInput \<Rightarrow> chat \<Rightarrow> jsval \<times> chat" where
  "addMessage opts e message st =
     (let m = newMessage e message
      in (m, st\<lparr>messages := append_message opts m (messages st)\<rparr>))"

subsection \<open>\<open>updateConversationHistory\<close> (lines 83-99)\<close>

definition user_entry :: "string \<Rightarrow> jsval" where
  "user_entry userMessage = JObj [(''role'', JStr ''user''), (''content'', JStr userMessage)]"

definition assistant_entry :: "string \<Rightarrow> jsval" where
  "assistant_entry botResponse =
     JObj [(''role'', JStr ''assistant''), (''content'', JStr botResponse)]"

text \<open>The function passed to \<open>setConversationHistory\<close>, after \<open>prev\<close> has been spread.\<close>

definition append_exchange :: "options \<Rightarrow> string \<Rightarrow> string \<Rightarrow> jsval list \<Rightarrow> jsval list" where
  "append_exchange opts userMessage botResponse prev =
     (let updated = prev @ [user_entry userMessage, assistant_entry botResponse];
          maxExchanges = maxHistoryLength opts div 2
      in if int (length updated) > maxExchanges * 2
         then js_slice (- maxExchanges * 2) updated
         else updated)"

definition updateConversationHistory ::
  "options \<Rightarrow> string \<Rightarrow> string \<Rightarrow> chat \<Rightarrow> js_error + chat" where
  "updateConversationHistory opts userMessage botResponse st =
     (case iterate (conversationHistory st) of
        Inl err \<Rightarrow> Inl err
      | Inr prev \<Rightarrow>
          Inr (st\<lparr>conversationHistory :=
                    JArr (append_exchange opts userMessage botResponse prev)\<rparr>))"

subsection \<open>\<open>clearChat\<close> (lines 101-113)\<close>

definition cleared_welcome :: "env \<Rightarrow> jsval" where
  "cleared_welcome e =
     JObj [(''id'', JStr (''initial-'' @ int_toString (Date_now e))),
           (''content'', JStr ''Chat cleared! How can I help you with your skincare today?''),
           (''sender'', JStr ''bot''),
           (''timestamp'', JDate (Some (current_time e)))]"

text \<open>
  Both logs are replaced first; then the two entries are removed, with no \<open>try\<close> around
  \<open>removeItem\<close>.
\<close>

definition clearChat ::
  "options \<Rightarrow> env \<Rightarrow> chat \<Rightarrow> localStorage \<Rightarrow> unit outcome \<times> chat \<times> localStorage" where
  "clearChat opts e st ls =
     (let st' = \<lparr>messages = [cleared_welcome e], conversationHistory = JArr []\<rparr>
      in case removeItem ls (messages_key opts) of
           Inl err \<Rightarrow> (Thrown err, st', ls)
         | Inr ls1 \<Rightarrow>
             (case removeItem ls1 (conversation_key opts) of
                Inl err \<Rightarrow> (Thrown err, st', ls1)
              | Inr ls2 \<Rightarrow> (Returned (), st', ls2)))"

subsection \<open>A call with the effect that follows it\<close>



subsection \<open>Sequences of calls\<close>

text \<open>State updates are applied in call order, each to the state the previous one left.\<close>

fun addMessages :: "options \<Rightarrow> (env \<times> MessageInput) list \<Rightarrow> chat \<Rightarrow> chat" where
  "addMessages opts [] st = st"
| "addMessages opts (c # calls) st =
     addMessages opts calls (snd (addMessage opts (fst c) (snd c) st))"

fun updateConversationHistories ::
  "options \<Rightarrow> (string \<times> string) list \<Rightarrow> chat \<Rightarrow> js_error + chat" where
  "updateConversationHistories opts [] st = Inr st"
| "updateConversationHistories opts (c # calls) st =
     (case updateConversationHistory opts (fst c) (snd c) st of
        Inl err \<Rightarrow> Inl err
      | Inr st' \<Rightarrow> updateConversationHistories opts calls st')"

subsection \<open>Notions used to state the properties\<close>

text \<open>The messages a sequence of \<open>addMessage\<close> calls creates, in call order.\<close>

definition created :: "(env \<times> MessageInput) list \<Rightarrow> jsval list" where
  "created calls = map (\<lambda>c. newMessage (fst c) (snd c)) calls"

text \<open>The entries a sequence of \<open>updateConversationHistory\<close> calls creates, in call order.\<close>

fun exchanges :: "(string \<times> string) list \<Rightarrow> jsval list" where
  "exchanges [] = []"
| "exchanges (c # calls) = user_entry (fst c) # assistant_entry (snd c) # exchanges calls"

text \<open>The last \<open>n\<close> elements of a list, all of it when it is shorter.\<close>

definition keep_last :: "nat \<Rightarrow> 'a list \<Rightarrow> 'a list" where
  "keep_last n xs = drop (length xs - n) xs"

text \<open>A log made of whole exchanges: a user entry, then an assistant entry, repeatedly.\<close>

fun whole_pairs :: "jsval list \<Rightarrow> bool" where
  "whole_pairs [] = True"
| "whole_pairs [x] = False"
| "whole_pairs (x # y # xs) =
     (get_prop ''role'' x = JStr ''user'' \<and> get_prop ''role'' y = JStr ''assistant''
      \<and> whole_pairs xs)"

definition fresh_chat :: "env \<Rightarrow> chat" where
  "fresh_chat e = \<lparr>messages = [welcome_message e], conversationHistory = JArr []\<rparr>"

subsection \<open>What the restore callback does to an element\<close>

text \<open>
  The callback throws on \<open>null\<close> (and \<open>undefined\<close>) and on an element whose timestamp cannot
  be converted to a primitive. On every other element it returns the element's properties
  with the timestamp replaced by a date, valid or not.
\<close>

definition revivable :: "jsval \<Rightarrow> bool" where
  "revivable msg =
     (msg \<noteq> JNull \<and> msg \<noteq> JUndefined \<and> \<not> ToPrimitive_throws (get_prop ''timestamp'' msg))"

definition the_Date :: "platform \<Rightarrow> jsval \<Rightarrow> int option" where
  "the_Date P v = (case new_Date P v of Inl err \<Rightarrow> None | Inr d \<Rightarrow> d)"

definition revived :: "platform \<Rightarrow> jsval \<Rightarrow> jsval" where
  "revived P msg =
     JObj (AList.update ''timestamp'' (JDate (the_Date P (get_prop ''timestamp'' msg)))
            (spread msg))"

subsection \<open>Shapes and the JSON image of a value\<close>

text \<open>
  A run-time object that has the shape of the interface \<open>Message\<close>: the four required
  fields with values of the declared types, possibly \<open>isLoading\<close>, and nothing else. The
  order of the fields is free (\<open>addMessage\<close> and the two welcome messages differ in it).
\<close>

definition Message_field :: "string \<times> jsval \<Rightarrow> bool" where
  "Message_field p =
     (case p of (k, v) \<Rightarrow>
        (k = ''id'' \<and> (\<exists>s. v = JStr s))
      \<or> (k = ''content'' \<and> (\<exists>s. v = JStr s))
      \<or> (k = ''sender'' \<and> (v = JStr ''user'' \<or> v = JStr ''bot''))
      \<or> (k = ''timestamp'' \<and> (\<exists>t. v = JDate t))
      \<or> (k = ''isLoading'' \<and> (\<exists>b. v = JBool b)))"

definition is_Message :: "jsval \<Rightarrow> bool" where
  "is_Message v =
     (case v of
        JObj ps \<Rightarrow>
          distinct (map fst ps) \<and> list_all Message_field ps
          \<and> ''id'' \<in> fst ` set ps \<and> ''content'' \<in> fst ` set ps
          \<and> ''sender'' \<in> fst ` set ps \<and> ''timestamp'' \<in> fst ` set ps
      | _ \<Rightarrow> False)"

text \<open>A run-time object that has the shape of \<open>ChatMessage\<close>: \<open>{ role, content }\<close>.\<close>

definition is_ChatMessage :: "jsval \<Rightarrow> bool" where
  "is_ChatMessage v =
     (\<exists>c. v = JObj [(''role'', JStr ''user''), (''content'', JStr c)]
        \<or> v = JObj [(''role'', JStr ''assistant''), (''content'', JStr c)])"

text \<open>
  What \<open>JSON.stringify\<close> writes for a value, as a value: a valid date becomes its ISO
  string and an invalid one \<open>null\<close> (\<open>Date.prototype.toJSON\<close>), a property whose value is
  \<open>undefined\<close> is left out, and \<open>undefined\<close> in an array becomes \<open>null\<close>.
\<close>

fun toJSON :: "(int \<Rightarrow> string) \<Rightarrow> jsval \<Rightarrow> jsval" where
  "toJSON fmt (JDate (Some t)) = JStr (fmt t)"
| "toJSON fmt (JDate None) = JNull"
| "toJSON fmt (JArr xs) =
     JArr (map (\<lambda>x. case toJSON fmt x of JUndefined \<Rightarrow> JNull | y \<Rightarrow> y) xs)"
| "toJSON fmt (JObj ps) =
     JObj (filter (\<lambda>p. snd p \<noteq> JUndefined) (map (\<lambda>p. (fst p, toJSON fmt (snd p))) ps))"
| "toJSON fmt v = v"

text \<open>
  The round trip the browser's \<open>JSON\<close> and \<open>Date\<close> guarantee: parsing what was written
  gives the JSON image back, the text written is never empty, and an ISO string parses to
  the time value it was made from.
\<close>

definition json_round_trip :: "platform \<Rightarrow> jsval \<Rightarrow> bool" where
  "json_round_trip P v =
     (JSON_stringify P v \<noteq> []
      \<and> JSON_parse P (JSON_stringify P v) = Some (toJSON (toISOString P) v))"

definition date_round_trip :: "platform \<Rightarrow> int \<Rightarrow> bool" where
  "date_round_trip P t = (Date_parse P (toISOString P t) = Some t)"

text \<open>A message as it comes back from storage: an invalid timestamp has become the epoch.\<close>

definition restored_timestamp :: "jsval \<Rightarrow> jsval" where
  "restored_timestamp v = (case v of JDate None \<Rightarrow> JDate (Some 0) | _ \<Rightarrow> v)"

definition restored :: "jsval \<Rightarrow> jsval" where
  "restored m =
     (case m of
        JObj ps \<Rightarrow>
          JObj (map (\<lambda>p. if fst p = ''timestamp'' then (fst p, restored_timestamp (snd p)) else p) ps)
      | _ \<Rightarrow> m)"

text \<open>The time values of the valid timestamps of a list of messages.\<close>

definition timestamps :: "jsval list \<Rightarrow> int list" where
  "timestamps ms =
     concat (map (\<lambda>m. case get_prop ''timestamp'' m of JDate (Some t) \<Rightarrow> [t] | _ \<Rightarrow> []) ms)"

subsection \<open>A concrete browser and session for the examples\<close>

text \<open>
  An environment read at 2024-11-02T08:00:00.000Z, a working empty storage, a session of
  three messages and one exchange, and a browser that knows the JSON texts of these values
  (written here without their quotation marks) and nothing else.
\<close>

definition example_env :: env where
  "example_env =
     \<lparr>Date_now = 1730534400000, random_suffix = ''k3x9q0z1a'', current_time = 1730534400000\<rparr>"

definition example_storage :: localStorage where
  "example_storage = \<lparr>items = Map.empty, accessible = True, quota_exceeded = False\<rparr>"

definition example_session :: chat where
  "example_session =
     \<lparr>messages =
        [welcome_message example_env,
         newMessage example_env \<lparr>content = ''Hi'', sender = SenderUser, isLoading = None\<rparr>,
         newMessage example_env \<lparr>content = ''Hello!'', sender = SenderBot, isLoading = None\<rparr>],
      conversationHistory = JArr [user_entry ''Hi'', assistant_entry ''Hello!'']\<rparr>"

definition example_messages_json :: jsval where
  "example_messages_json =
     JArr [JObj [(''id'', JStr ''initial''), (''content'', JStr welcome_content),
                 (''sender'', JStr ''bot''), (''timestamp'', JStr ''2024-11-02T08:00:00.000Z'')],
           JObj [(''content'', JStr ''Hi''), (''sender'', JStr ''user''),
                 (''id'', JStr (new_id example_env)),
                 (''timestamp'', JStr ''2024-11-02T08:00:00.000Z'')],
           JObj [(''content'', JStr ''Hello!''), (''sender'', JStr ''bot''),
                 (''id'', JStr (new_id example_env)),
                 (''timestamp'', JStr ''2024-11-02T08:00:00.000Z'')]]"

definition example_cleared_json :: jsval where
  "example_cleared_json =
     JArr [JObj [(''id'', JStr (''initial-'' @ int_toString 1730534400000)),
                 (''content'', JStr ''Chat cleared! How can I help you with your skincare today?''),
                 (''sender'', JStr ''bot''),
                 (''timestamp'', JStr ''2024-11-02T08:00:00.000Z'')]]"

definition example_parse :: "string \<Rightarrow> jsval option" where
  "example_parse s =
     (if s = ''[]'' then Some (JArr [])
      else if s = ''[{}]'' then Some (JArr [JObj []])
      else if s = ''{}'' then Some (JObj [])
      else if s = ''[{timestamp:{toString:1}}]''
        then Some (JArr [JObj [(''timestamp'', JObj [(''toString'', JNum 1)])]])
      else if s = ''[{role:user,content:Hi},{role:assistant,content:Hello!}]''
        then Some (JArr [user_entry ''Hi'', assistant_entry ''Hello!''])
      else if s = ''[{id:initial,...},{content:Hi,...},{content:Hello!,...}]''
        then Some example_messages_json
      else if s = ''[{id:initial-1730534400000,...}]'' then Some example_cleared_json
      else None)"

definition example_stringify :: "jsval \<Rightarrow> string" where
  "example_stringify v =
     (if v = JArr [] then ''[]''
      else if v = JArr [user_entry ''Hi'', assistant_entry ''Hello!'']
        then ''[{role:user,content:Hi},{role:assistant,content:Hello!}]''
      else if v = JArr (messages example_session)
        then ''[{id:initial,...},{content:Hi,...},{content:Hello!,...}]''
      else ''[{id:initial-1730534400000,...}]'')"

definition example_platform :: platform where
  "example_platform =
     \<lparr>JSON_parse = example_parse,
      JSON_stringify = example_stringify,
      Date_parse = (\<lambda>s. if s = ''2024-11-02T08:00:00.000Z'' then Some 1730534400000 else None),
      toISOString = (\<lambda>t. ''2024-11-02T08:00:00.000Z''),
      ToString = (\<lambda>v. ''[object Object]'')\<rparr>"

section \<open>Properties\<close>

subsection \<open>Slicing and the last \<open>n\<close> elements\<close>

lemma js_slice_neg: "0 < n \<Longrightarrow> js_slice (- int n) xs = keep_last n xs"
  by (auto simp: js_slice_def keep_last_def Let_def max_def nat_diff_distrib' intro: arg_cong[where f="\<lambda>k. drop k xs"])

lemma js_slice_zero: "js_slice 0 xs = xs"
  by (simp add: js_slice_def)

lemma js_slice_nonneg: "0 \<le> k \<Longrightarrow> js_slice k xs = drop (nat k) xs"
  by (auto simp: js_slice_def Let_def min_def)

lemma keep_last_append_keep_last:
  "keep_last n (keep_last n xs @ ys) = keep_last n (xs @ ys)"
proof (cases "length xs \<le> n")
  case True
  then show ?thesis by (simp add: keep_last_def)
next
  case False
  then show ?thesis by (simp add: keep_last_def add.commute)
qed

lemma keep_last_all: "length xs \<le> n \<Longrightarrow> keep_last n xs = xs"
  by (simp add: keep_last_def)

lemma length_keep_last: "length (keep_last n xs) = min n (length xs)"
  by (simp add: keep_last_def)

lemma js_slice_drop:
  "\<exists>k. js_slice start xs = drop k xs \<and> (even start \<and> even (length xs) \<longrightarrow> even k)"
proof -
  define k where "k = (if start < 0 then max (int (length xs) + start) 0 else min start (int (length xs)))"
  have "js_slice start xs = drop (nat k) xs"
    by (simp add: js_slice_def k_def Let_def)
  moreover have "even (nat k)" if "even start" "even (length xs)"
    using that by (auto simp: k_def max_def min_def even_nat_iff)
  ultimately show ?thesis by blast
qed

subsection \<open>Decimal strings\<close>

lemma decimal_small: "n < 10 \<Longrightarrow> decimal n = [digit_char (nat n)]"
  by (subst decimal.simps) simp

lemma decimal_large:
  "\<not> n < 10 \<Longrightarrow> decimal n = decimal (n div 10) @ [digit_char (nat (n mod 10))]"
  by (subst decimal.simps) simp

lemma lt_10_cases:
  "(d::nat) < 10 \<Longrightarrow> d = 0 \<or> d = 1 \<or> d = 2 \<or> d = 3 \<or> d = 4 \<or> d = 5 \<or> d = 6 \<or> d = 7 \<or> d = 8 \<or> d = 9"
  by arith

lemma digit_char_inj: "d < 10 \<Longrightarrow> d' < 10 \<Longrightarrow> digit_char d = digit_char d' \<Longrightarrow> d = d'"
  using lt_10_cases[of d] lt_10_cases[of d']
  by (auto simp: digit_char_def)

lemma digit_char_is_digit: "d < 10 \<Longrightarrow> digit_char d \<in> set ''0123456789''"
  using lt_10_cases[of d] by (auto simp: digit_char_def)

lemma decimal_nonempty: "decimal n \<noteq> []"
  by (subst decimal.simps) simp

lemma hd_decimal: "hd (decimal n) \<in> set ''0123456789''"
proof (induction n rule: decimal.induct)
  case (1 n)
  show ?case
  proof (cases "n < 10")
    case True
    then have "nat n < 10" by simp
    from digit_char_is_digit[OF this] True show ?thesis
      by (simp only: decimal_small list.sel)
  next
    case False
    with 1 have "hd (decimal (n div 10)) \<in> set ''0123456789''" by simp
    moreover have "hd (decimal n) = hd (decimal (n div 10))"
      unfolding decimal_large[OF False]
      by (rule hd_append2) (rule decimal_nonempty)
    ultimately show ?thesis by (simp only:)
  qed
qed

lemma length_decimal_large:
  assumes "\<not> n < 10"
  shows "2 \<le> length (decimal n)"
proof -
  have "length (decimal n) = length (decimal (n div 10)) + 1"
    unfolding decimal_large[OF assms] by (simp only: length_append list.size add_0)
  moreover have "1 \<le> length (decimal (n div 10))"
    using decimal_nonempty[of "n div 10"] by (cases "decimal (n div 10)") simp_all
  ultimately show ?thesis by linarith
qed

lemma decimal_inj: "decimal n = decimal m \<Longrightarrow> 0 \<le> n \<Longrightarrow> 0 \<le> m \<Longrightarrow> n = m"
proof (induction n arbitrary: m rule: decimal.induct)
  case (1 n)
  show ?case
  proof (cases "n < 10")
    case n: True
    show ?thesis
    proof (cases "m < 10")
      case True
      with n 1(2) have "digit_char (nat n) = digit_char (nat m)"
        by (simp only: decimal_small list.inject)
      moreover from n True have "nat n < 10" "nat m < 10" by simp_all
      ultimately have "nat n = nat m" by (blast intro: digit_char_inj)
      with 1(3,4) show ?thesis by simp
    next
      case False
      from 1(2) n have "decimal m = [digit_char (nat n)]"
        by (simp only: decimal_small)
      then have "length (decimal m) = 1" by (simp only: list.size)
      with length_decimal_large[OF False] show ?thesis by linarith
    qed
  next
    case n: False
    show ?thesis
    proof (cases "m < 10")
      case True
      from 1(2) True have "decimal n = [digit_char (nat m)]"
        by (simp only: decimal_small)
      then have "length (decimal n) = 1" by (simp only: list.size)
      with length_decimal_large[OF n] show ?thesis by linarith
    next
      case False
      with n 1(2) have eq: "decimal (n div 10) @ [digit_char (nat (n mod 10))]
                          = decimal (m div 10) @ [digit_char (nat (m mod 10))]"
        by (simp only: decimal_large[OF n] decimal_large[OF False])
      then have "decimal (n div 10) = decimal (m div 10)"
        and d: "digit_char (nat (n mod 10)) = digit_char (nat (m mod 10))" by simp_all
      with 1(1)[OF n] 1(3,4) have "n div 10 = m div 10" by simp
      moreover from d have "nat (n mod 10) = nat (m mod 10)" by (intro digit_char_inj) simp_all
      then have "n mod 10 = m mod 10" by simp
      ultimately show ?thesis by (metis div_mult_mod_eq)
    qed
  qed
qed

lemma int_toString_nonempty: "int_toString i \<noteq> []"
  by (simp add: int_toString_def decimal_nonempty)

lemma hd_int_toString: "hd (int_toString i) \<in> set ''-0123456789''"
  using hd_decimal[of i] by (auto simp: int_toString_def)

lemma int_toString_inj: "int_toString i = int_toString j \<Longrightarrow> i = j"
proof -
  assume eq: "int_toString i = int_toString j"
  have neg: "CHR ''-'' # xs \<noteq> decimal n" for xs n
    using hd_decimal[of n] by (cases "decimal n") auto
  show ?thesis
  proof (cases "i < 0")
    case i: True
    show ?thesis
    proof (cases "j < 0")
      case True
      with i eq have "decimal (- i) = decimal (- j)" by (simp add: int_toString_def)
      with i True have "- i = - j" by (intro decimal_inj) simp_all
      then show ?thesis by simp
    next
      case False
      with i eq neg show ?thesis by (simp add: int_toString_def)
    qed
  next
    case i: False
    show ?thesis
    proof (cases "j < 0")
      case True
      with i eq neg[of "decimal (- j)" i] show ?thesis
        by (simp add: int_toString_def)
    next
      case False
      with i eq have "decimal i = decimal j" by (simp add: int_toString_def)
      with i False show ?thesis by (intro decimal_inj) simp_all
    qed
  qed
qed

lemma new_id_not_initial: "new_id e \<noteq> ''initial'' @ s"
proof -
  have "hd (new_id e) = hd (int_toString (Date_now e))"
    by (simp add: new_id_def int_toString_nonempty)
  then show ?thesis using hd_int_toString[of "Date_now e"] by auto
qed

lemma new_id_eq_iff:
  assumes "length (random_suffix e) = length (random_suffix e')"
  shows "new_id e = new_id e' \<longleftrightarrow> Date_now e = Date_now e' \<and> random_suffix e = random_suffix e'"
  using assms by (auto simp: new_id_def dest: int_toString_inj)

subsection \<open>The example browser and session\<close>

lemma newMessage_props:
  "get_prop ''content'' (newMessage e message) = JStr (content message)"
  "get_prop ''sender'' (newMessage e message) = JStr (sender_str (sender message))"
  "get_prop ''id'' (newMessage e message) = JStr (new_id e)"
  "get_prop ''timestamp'' (newMessage e message) = JDate (Some (current_time e))"
  by (cases "isLoading message"; simp add: newMessage_def MessageInput_props_def get_prop_def)+

lemma welcome_message_props:
  "get_prop ''id'' (welcome_message e) = JStr ''initial''"
  "get_prop ''content'' (welcome_message e) = JStr welcome_content"
  "get_prop ''sender'' (welcome_message e) = JStr ''bot''"
  "get_prop ''timestamp'' (welcome_message e) = JDate (Some (current_time e))"
  by (simp_all add: welcome_message_def get_prop_def)

lemma cleared_welcome_props:
  "get_prop ''id'' (cleared_welcome e) = JStr (''initial-'' @ int_toString (Date_now e))"
  "get_prop ''content'' (cleared_welcome e) = JStr ''Chat cleared! How can I help you with your skincare today?''"
  "get_prop ''sender'' (cleared_welcome e) = JStr ''bot''"
  "get_prop ''timestamp'' (cleared_welcome e) = JDate (Some (current_time e))"
  by (simp_all add: cleared_welcome_def get_prop_def)

lemma is_Message_newMessage: "is_Message (newMessage e message)"
  by (cases "isLoading message"; cases "sender message";
      simp add: newMessage_def MessageInput_props_def is_Message_def Message_field_def sender_str_def)

lemma is_Message_welcome: "is_Message (welcome_message e)"
  by (simp add: welcome_message_def is_Message_def Message_field_def)

lemma is_Message_cleared_welcome: "is_Message (cleared_welcome e)"
  by (simp add: cleared_welcome_def is_Message_def Message_field_def)

lemma is_Message_example: "list_all is_Message (messages example_session)"
  by (simp add: example_session_def is_Message_welcome is_Message_newMessage)

lemma example_history: "list_all is_ChatMessage [user_entry ''Hi'', assistant_entry ''Hello!'']"
  by (simp add: is_ChatMessage_def user_entry_def assistant_entry_def)

lemma example_messages_toJSON:
  "toJSON (toISOString example_platform) (JArr (messages example_session)) = example_messages_json"
  by (simp add: example_session_def welcome_message_def newMessage_def MessageInput_props_def
      sender_str_def example_platform_def example_messages_json_def example_env_def)

lemma example_round_trip_messages: "json_round_trip example_platform (JArr (messages example_session))"
  unfolding json_round_trip_def example_messages_toJSON
  by (simp add: example_platform_def example_stringify_def example_parse_def
      example_session_def user_entry_def)

lemma example_round_trip_history:
  "json_round_trip example_platform (JArr [user_entry ''Hi'', assistant_entry ''Hello!''])"
  by (simp add: json_round_trip_def example_platform_def example_stringify_def example_parse_def
      user_entry_def assistant_entry_def)

lemma example_round_trip_empty: "json_round_trip example_platform (JArr [])"
  by (simp add: json_round_trip_def example_platform_def example_stringify_def example_parse_def)

lemma example_round_trip_cleared:
  "json_round_trip example_platform (JArr [cleared_welcome example_env])"
  by (simp add: json_round_trip_def example_platform_def example_stringify_def example_parse_def
      example_session_def cleared_welcome_def welcome_message_def user_entry_def
      example_cleared_json_def example_env_def)

lemma example_dates: "date_round_trip example_platform 1730534400000"
  by (simp add: date_round_trip_def example_platform_def)

lemma example_timestamps:
  "list_all (date_round_trip example_platform) (timestamps (messages example_session))"
  by (simp add: timestamps_def example_session_def newMessage_props welcome_message_props
      example_env_def example_dates)

lemma restored_example: "map restored (messages example_session) = messages example_session"
  by (simp add: example_session_def restored_def welcome_message_def newMessage_def
      MessageInput_props_def restored_timestamp_def)

subsection \<open>The message log\<close>

lemma append_message_pos:
  assumes "1 \<le> maxHistoryLength opts"
  shows "append_message opts m prev = keep_last (nat (maxHistoryLength opts)) (prev @ [m])"
proof -
  define n where "n = nat (maxHistoryLength opts)"
  have n: "maxHistoryLength opts = int n" "0 < n"
    using assms by (auto simp: n_def)
  show ?thesis
    using n js_slice_neg[of n "prev @ [m]"]
    by (simp add: append_message_def Let_def n_def[symmetric] keep_last_all)
qed

lemma append_message_zero:
  "maxHistoryLength opts = 0 \<Longrightarrow> append_message opts m prev = prev @ [m]"
  by (simp add: append_message_def Let_def js_slice_zero)

lemma append_message_last:
  assumes "0 \<le> maxHistoryLength opts"
  shows "append_message opts m prev \<noteq> [] \<and> last (append_message opts m prev) = m"
proof (cases "maxHistoryLength opts = 0")
  case True
  then show ?thesis by (simp add: append_message_zero)
next
  case False
  with assms have "1 \<le> maxHistoryLength opts" by simp
  from append_message_pos[OF this, of m prev] this show ?thesis
    by (auto simp: keep_last_def)
qed

lemma append_message_within_cap:
  assumes "1 \<le> maxHistoryLength opts"
  shows "int (length (append_message opts m prev)) \<le> maxHistoryLength opts"
  using assms by (simp add: append_message_pos length_keep_last)

lemma conversationHistory_addMessages:
  "conversationHistory (addMessages opts calls st) = conversationHistory st"
  by (induction calls arbitrary: st) (simp_all add: addMessage_def Let_def)

lemma messages_addMessages_zero:
  "maxHistoryLength opts = 0 \<Longrightarrow>
   messages (addMessages opts calls st) = messages st @ created calls"
  by (induction calls arbitrary: st)
     (simp_all add: addMessage_def Let_def append_message_zero created_def)

lemma messages_addMessages_pos:
  assumes "1 \<le> maxHistoryLength opts"
  shows "messages (addMessages opts calls st) =
         (if calls = [] then messages st
          else keep_last (nat (maxHistoryLength opts)) (messages st @ created calls))"
proof (induction calls arbitrary: st)
  case Nil
  then show ?case by simp
next
  case (Cons c calls)
  have "keep_last n (keep_last n (messages st @ [newMessage (fst c) (snd c)]) @ created calls)
        = keep_last n (messages st @ newMessage (fst c) (snd c) # created calls)" for n
    by (simp add: keep_last_append_keep_last)
  then show ?case
    using Cons.IH assms
    by (simp add: addMessage_def Let_def append_message_pos created_def)
qed

text \<open>
  With the default cap of 50, adding 55 messages to a fresh session leaves the newest 50 of
  them, oldest first: the welcome message and the 5 oldest are evicted.
\<close>

lemma fifty_five:
  assumes "length calls = 55"
  shows "messages (addMessages default_options calls (fresh_chat e)) = drop 5 (created calls)"
proof -
  have "calls \<noteq> []" using assms by auto
  then show ?thesis
    using messages_addMessages_pos[of default_options calls "fresh_chat e"] assms
    by (simp add: default_options_def fresh_chat_def keep_last_def created_def)
qed

text \<open>
  Claim C1. After a sequence of \<open>addMessage\<close> calls the message log is the insertion-order
  sequence truncated from the front so that its length never exceeds the configured cap.
  The code does this for every cap of at least \<open>1\<close> (\<open>messages_addMessages_pos\<close>), not for
  the cap \<open>0\<close>: the eviction branch is taken and calls \<open>slice(-0)\<close>, which keeps the whole
  array, so the log holds every message ever added and exceeds the cap after the first
  call.
\<close>

theorem addMessages_cap_0_keeps_everything:
  "messages (addMessages \<lparr>storageKey = k, maxHistoryLength = 0\<rparr> calls st)
     = messages st @ created calls
   \<and> length (messages (addMessages \<lparr>storageKey = k, maxHistoryLength = 0\<rparr> calls st))
     = length (messages st) + length calls"
  by (simp add: messages_addMessages_zero created_def)

text \<open>
  Claim C9, as amended. For a cap that is not negative, \<open>addMessage\<close> returns the message it
  appended (the last one of the log), whose content and sender are the arguments, whose
  timestamp is the time read by the call and whose identifier is the decimal clock reading
  followed by the random suffix. The identifier differs from \<open>initial\<close> and from every
  identifier \<open>clearChat\<close> makes; it equals the identifier of another call with a suffix of
  the same length exactly when clock reading and suffix are both the same.
\<close>

theorem addMessage_returns_created_message:
  assumes "0 \<le> maxHistoryLength opts"
  shows "fst (addMessage opts e message st) = newMessage e message
       \<and> get_prop ''content'' (newMessage e message) = JStr (content message)
       \<and> get_prop ''sender'' (newMessage e message) = JStr (sender_str (sender message))
       \<and> get_prop ''timestamp'' (newMessage e message) = JDate (Some (current_time e))
       \<and> get_prop ''id'' (newMessage e message) = JStr (int_toString (Date_now e) @ random_suffix e)
       \<and> messages (snd (addMessage opts e message st)) \<noteq> []
       \<and> last (messages (snd (addMessage opts e message st))) = newMessage e message
       \<and> new_id e \<noteq> ''initial''
       \<and> (\<forall>e' :: env. new_id e \<noteq> ''initial-'' @ int_toString (Date_now e'))
       \<and> (\<forall>e' :: env. length (random_suffix e') = length (random_suffix e) \<longrightarrow>
                (new_id e' = new_id e \<longleftrightarrow>
                 Date_now e' = Date_now e \<and> random_suffix e' = random_suffix e))"
proof -
  have a: "new_id e \<noteq> ''initial''" using new_id_not_initial[of e "[]"] by simp
  have b: "new_id e \<noteq> ''initial-'' @ int_toString (Date_now e')" for e' :: env
    using new_id_not_initial[of e "''-'' @ int_toString (Date_now e')"] by simp
  show ?thesis
    using append_message_last[OF assms, of "newMessage e message" "messages st"] a b
    by (simp add: addMessage_def Let_def newMessage_props new_id_eq_iff) (simp add: new_id_def)
qed

theorem addMessage_returns_created_message_witness:
  "0 \<le> maxHistoryLength default_options
   \<and> fst (addMessage default_options example_env
            \<lparr>content = ''Hi'', sender = SenderUser, isLoading = None\<rparr> (fresh_chat example_env))
     = JObj [(''content'', JStr ''Hi''), (''sender'', JStr ''user''),
             (''id'', JStr ''1730534400000k3x9q0z1a''),
             (''timestamp'', JDate (Some 1730534400000))]
   \<and> last (messages (snd (addMessage default_options example_env
            \<lparr>content = ''Hi'', sender = SenderUser, isLoading = None\<rparr> (fresh_chat example_env))))
     = newMessage example_env \<lparr>content = ''Hi'', sender = SenderUser, isLoading = None\<rparr>"
  using addMessage_returns_created_message[of default_options example_env
             "\<lparr>content = ''Hi'', sender = SenderUser, isLoading = None\<rparr>" "fresh_chat example_env"]
  by (simp add: default_options_def newMessage_def MessageInput_props_def sender_str_def
      new_id_def example_env_def int_toString_def decimal_small decimal_large digit_char_def)

text \<open>
  Claim C9 as stated fails: two calls that read the same clock value and draw the same
  random suffix give the same identifier, so the identifier of the second message is that
  of a message already in the log.
\<close>

theorem addMessage_id_reused_counterexample:
  "map (get_prop ''id'')
     (messages (snd (addMessage default_options example_env
                  \<lparr>content = ''Hi'', sender = SenderUser, isLoading = None\<rparr>
                  (fresh_chat example_env))))
   = [JStr ''initial'', JStr ''1730534400000k3x9q0z1a'']
   \<and> get_prop ''id''
       (fst (addMessage default_options example_env
               \<lparr>content = ''Thanks'', sender = SenderUser, isLoading = None\<rparr>
               (snd (addMessage default_options example_env
                       \<lparr>content = ''Hi'', sender = SenderUser, isLoading = None\<rparr>
                       (fresh_chat example_env)))))
   = JStr ''1730534400000k3x9q0z1a''"
  by (simp add: addMessage_def Let_def newMessage_props welcome_message_props append_message_def
      default_options_def fresh_chat_def new_id_def example_env_def int_toString_def
      decimal_small decimal_large digit_char_def)

subsection \<open>The exchange log\<close>

lemma append_exchange_pos:
  assumes "2 \<le> maxHistoryLength opts"
  shows "append_exchange opts u b prev =
         keep_last (2 * nat (maxHistoryLength opts div 2)) (prev @ [user_entry u, assistant_entry b])"
proof -
  define m where "m = nat (maxHistoryLength opts div 2)"
  have m: "maxHistoryLength opts div 2 = int m" "0 < m"
    using assms by (auto simp: m_def)
  have eq: "- (int m) * 2 = - int (2 * m)" by simp
  have "js_slice (- (int m) * 2) (prev @ [user_entry u, assistant_entry b]) =
             keep_last (2 * m) (prev @ [user_entry u, assistant_entry b])"
    unfolding eq using m by (intro js_slice_neg) simp
  then show ?thesis
    using m by (simp add: append_exchange_def Let_def m_def[symmetric] keep_last_all)
qed

lemma append_exchange_zero:
  assumes "maxHistoryLength opts = 0 \<or> maxHistoryLength opts = 1"
  shows "append_exchange opts u b prev = prev @ [user_entry u, assistant_entry b]"
  using assms by (auto simp: append_exchange_def Let_def js_slice_zero)

lemma even_length_js_slice:
  "even (length xs) \<Longrightarrow> even start \<Longrightarrow> even (length (js_slice start xs))"
  by (auto simp: js_slice_def Let_def max_def min_def even_nat_iff nat_diff_distrib')

lemma even_length_append_exchange:
  "even (length prev) \<Longrightarrow> even (length (append_exchange opts u b prev))"
  by (auto simp: append_exchange_def Let_def intro!: even_length_js_slice)

lemma length_exchanges: "length (exchanges calls) = 2 * length calls"
  by (induction calls) simp_all

lemma exchanges_append: "exchanges (xs @ ys) = exchanges xs @ exchanges ys"
  by (induction xs) simp_all

lemma role_user_entry: "get_prop ''role'' (user_entry u) = JStr ''user''"
  by (simp add: get_prop_def user_entry_def)

lemma role_assistant_entry: "get_prop ''role'' (assistant_entry b) = JStr ''assistant''"
  by (simp add: get_prop_def assistant_entry_def)

lemma role_exchanges:
  "i < 2 * length calls \<Longrightarrow>
   get_prop ''role'' (exchanges calls ! i) = JStr (if even i then ''user'' else ''assistant'')"
proof (induction calls arbitrary: i)
  case Nil
  then show ?case by simp
next
  case (Cons c calls)
  show ?case
  proof (cases i)
    case 0
    then show ?thesis by (simp add: role_user_entry)
  next
    case (Suc j)
    show ?thesis
    proof (cases j)
      case 0
      with Suc show ?thesis by (simp add: role_assistant_entry)
    next
      case (Suc k)
      with \<open>i = Suc j\<close> Cons.prems have "k < 2 * length calls" by simp
      from Cons.IH[OF this] Suc \<open>i = Suc j\<close> show ?thesis by simp
    qed
  qed
qed

lemma whole_pairs_exchanges: "whole_pairs (exchanges calls)"
  by (induction calls) (simp_all add: role_user_entry role_assistant_entry)

lemma whole_pairs_append: "whole_pairs xs \<Longrightarrow> whole_pairs ys \<Longrightarrow> whole_pairs (xs @ ys)"
  by (induction xs rule: whole_pairs.induct) simp_all

lemma whole_pairs_even: "whole_pairs xs \<Longrightarrow> even (length xs)"
  by (induction xs rule: whole_pairs.induct) simp_all

lemma whole_pairs_drop: "whole_pairs xs \<Longrightarrow> whole_pairs (drop (2 * k) xs)"
proof (induction xs arbitrary: k rule: whole_pairs.induct)
  case 1
  then show ?case by simp
next
  case (2 x)
  then show ?case by simp
next
  case (3 x y xs)
  show ?case
  proof (cases k)
    case 0
    with 3 show ?thesis by simp
  next
    case (Suc j)
    with 3 show ?thesis by simp
  qed
qed

lemma whole_pairs_js_slice:
  assumes "whole_pairs xs" "even start"
  shows "whole_pairs (js_slice start xs)"
proof -
  obtain k where k: "js_slice start xs = drop k xs" "even k"
    using js_slice_drop[of start xs] assms whole_pairs_even by blast
  then obtain j where "k = 2 * j" by (auto elim: evenE)
  with k assms show ?thesis by (simp add: whole_pairs_drop)
qed

lemma whole_pairs_append_exchange:
  assumes "whole_pairs prev"
  shows "whole_pairs (append_exchange opts u b prev)"
proof -
  have "whole_pairs (prev @ [user_entry u, assistant_entry b])"
    using assms by (intro whole_pairs_append) (simp_all add: role_user_entry role_assistant_entry)
  then show ?thesis
    by (auto simp: append_exchange_def Let_def intro!: whole_pairs_js_slice)
qed

lemma updateConversationHistory_array:
  "updateConversationHistory opts u b (st\<lparr>conversationHistory := JArr prev\<rparr>) =
   Inr (st\<lparr>conversationHistory := JArr (append_exchange opts u b prev)\<rparr>)"
  by (simp add: updateConversationHistory_def iterate_def)

lemma append_exchange_within_cap:
  assumes "2 \<le> maxHistoryLength opts"
  shows "int (length (append_exchange opts u b prev)) \<le> maxHistoryLength opts"
proof -
  have "int (2 * nat (maxHistoryLength opts div 2)) \<le> maxHistoryLength opts"
    using assms by simp
  then show ?thesis
    using assms by (simp add: append_exchange_pos length_keep_last)
qed

lemma histories_zero:
  assumes "maxHistoryLength opts = 0 \<or> maxHistoryLength opts = 1"
  shows "updateConversationHistories opts calls (st\<lparr>conversationHistory := JArr prev\<rparr>) =
         Inr (st\<lparr>conversationHistory := JArr (prev @ exchanges calls)\<rparr>)"
  using assms
  by (induction calls arbitrary: prev)
     (simp_all add: updateConversationHistory_array append_exchange_zero)

lemma histories_pos:
  assumes "2 \<le> maxHistoryLength opts"
  shows "updateConversationHistories opts calls (st\<lparr>conversationHistory := JArr prev\<rparr>) =
         Inr (st\<lparr>conversationHistory :=
                 JArr (if calls = [] then prev
                       else keep_last (2 * nat (maxHistoryLength opts div 2)) (prev @ exchanges calls))\<rparr>)"
proof (induction calls arbitrary: prev)
  case Nil
  then show ?case by simp
next
  case (Cons c calls)
  have "keep_last n (keep_last n (prev @ [user_entry (fst c), assistant_entry (snd c)]) @ exchanges calls)
        = keep_last n (prev @ user_entry (fst c) # assistant_entry (snd c) # exchanges calls)" for n
    by (simp add: keep_last_append_keep_last)
  then show ?case
    using Cons.IH assms
    by (simp add: updateConversationHistory_array append_exchange_pos)
qed

lemma histories_whole_pairs:
  assumes "whole_pairs prev"
  shows "\<exists>xs. updateConversationHistories opts calls (st\<lparr>conversationHistory := JArr prev\<rparr>) =
              Inr (st\<lparr>conversationHistory := JArr xs\<rparr>) \<and> whole_pairs xs"
  using assms
proof (induction calls arbitrary: prev)
  case Nil
  then show ?case by auto
next
  case (Cons c calls)
  from Cons.IH[OF whole_pairs_append_exchange[OF Cons.prems]]
  show ?case by (simp add: updateConversationHistory_array)
qed

text \<open>
  A fresh session, the user's \<open>Hi\<close>, the reply \<open>Hello!\<close> and the exchange of the two: three
  messages in call order and one user/assistant pair.
\<close>

lemma concrete_scenario:
  "messages (addMessages default_options
      [(e1, \<lparr>content = ''Hi'', sender = SenderUser, isLoading = None\<rparr>),
       (e2, \<lparr>content = ''Hello!'', sender = SenderBot, isLoading = None\<rparr>)] (fresh_chat e0))
   = [welcome_message e0,
      newMessage e1 \<lparr>content = ''Hi'', sender = SenderUser, isLoading = None\<rparr>,
      newMessage e2 \<lparr>content = ''Hello!'', sender = SenderBot, isLoading = None\<rparr>]
   \<and> updateConversationHistory default_options ''Hi'' ''Hello!'' (fresh_chat e0)
   = Inr ((fresh_chat e0)\<lparr>conversationHistory :=
             JArr [user_entry ''Hi'', assistant_entry ''Hello!'']\<rparr>)"
  by (simp add: addMessage_def Let_def append_message_def default_options_def fresh_chat_def
      updateConversationHistory_def iterate_def append_exchange_def)

lemma append_exchange_keeps_new_pair:
  assumes "0 \<le> maxHistoryLength opts"
  shows "\<exists>k. append_exchange opts u b prev = drop k prev @ [user_entry u, assistant_entry b]"
proof (cases "2 \<le> maxHistoryLength opts")
  case True
  define n where "n = 2 * nat (maxHistoryLength opts div 2)"
  have n: "2 \<le> n" using True by (simp add: n_def)
  have "append_exchange opts u b prev = keep_last n (prev @ [user_entry u, assistant_entry b])"
    unfolding n_def using True by (rule append_exchange_pos)
  also have "\<dots> = drop (length prev + 2 - n) prev @ [user_entry u, assistant_entry b]"
    using n by (simp add: keep_last_def)
  finally show ?thesis by blast
next
  case False
  with assms have "maxHistoryLength opts = 0 \<or> maxHistoryLength opts = 1" by linarith
  from append_exchange_zero[OF this, of u b prev]
  have "append_exchange opts u b prev = drop 0 prev @ [user_entry u, assistant_entry b]" by simp
  then show ?thesis by blast
qed

lemma histories_no_eviction:
  assumes "maxHistoryLength opts div 2 = 0 \<or> int (length calls) \<le> maxHistoryLength opts div 2"
  shows "updateConversationHistories opts calls (st\<lparr>conversationHistory := JArr []\<rparr>) =
         Inr (st\<lparr>conversationHistory := JArr (exchanges calls)\<rparr>)"
proof (cases "maxHistoryLength opts div 2 = 0")
  case True
  then have "maxHistoryLength opts = 0 \<or> maxHistoryLength opts = 1" by presburger
  from histories_zero[OF this, where calls=calls and st=st and prev="[]"] show ?thesis by simp
next
  case False
  with assms have le: "int (length calls) \<le> maxHistoryLength opts div 2" by simp
  show ?thesis
  proof (cases "calls = []")
    case True
    then show ?thesis by simp
  next
    case False
    with le have "2 \<le> maxHistoryLength opts" by (cases calls) auto
    moreover have "length (exchanges calls) \<le> 2 * nat (maxHistoryLength opts div 2)"
      using le by (simp add: length_exchanges)
    ultimately show ?thesis
      using histories_pos[where opts=opts and calls=calls and st=st and prev="[]"] False
      by (simp add: keep_last_all)
  qed
qed

text \<open>
  Claim C3, as amended. For a cap that is not negative, every call of
  \<open>updateConversationHistory\<close> on a log that is an array leaves what remains of the previous
  log followed by exactly two new entries, the user entry and then the assistant entry:
  eviction removes entries from the front of the previous log only, so the pair stays whole
  and the user entry never stays without its assistant entry. Starting from the empty log,
  \<open>N\<close> calls without eviction leave exactly \<open>2N\<close> entries, those at even indices with role
  \<open>user\<close> and those at odd indices with role \<open>assistant\<close>. No eviction: the cap in exchanges
  is at least \<open>N\<close>, or it is \<open>0\<close> (where the slice removes nothing).
\<close>

theorem updateConversationHistory_appends_pairs:
  assumes "0 \<le> maxHistoryLength opts"
  shows "(\<exists>k. updateConversationHistory opts u b (st\<lparr>conversationHistory := JArr prev\<rparr>) =
               Inr (st\<lparr>conversationHistory :=
                         JArr (drop k prev @ [user_entry u, assistant_entry b])\<rparr>))
       \<and> (maxHistoryLength opts div 2 = 0 \<or> int (length calls) \<le> maxHistoryLength opts div 2
          \<longrightarrow> (\<exists>xs. updateConversationHistories opts calls (st\<lparr>conversationHistory := JArr []\<rparr>) =
                  Inr (st\<lparr>conversationHistory := JArr xs\<rparr>)
               \<and> xs = exchanges calls
               \<and> length xs = 2 * length calls
               \<and> (\<forall>i < 2 * length calls.
                     get_prop ''role'' (xs ! i) = JStr (if even i then ''user'' else ''assistant''))))"
proof (intro conjI impI)
  from append_exchange_keeps_new_pair[OF assms, of u b prev]
  obtain k where "append_exchange opts u b prev = drop k prev @ [user_entry u, assistant_entry b]" ..
  then have "updateConversationHistory opts u b (st\<lparr>conversationHistory := JArr prev\<rparr>) =
               Inr (st\<lparr>conversationHistory :=
                         JArr (drop k prev @ [user_entry u, assistant_entry b])\<rparr>)"
    by (simp add: updateConversationHistory_array)
  then show "\<exists>k. updateConversationHistory opts u b (st\<lparr>conversationHistory := JArr prev\<rparr>) =
               Inr (st\<lparr>conversationHistory :=
                         JArr (drop k prev @ [user_entry u, assistant_entry b])\<rparr>)" ..
next
  assume "maxHistoryLength opts div 2 = 0 \<or> int (length calls) \<le> maxHistoryLength opts div 2"
  from histories_no_eviction[OF this, of st]
  show "\<exists>xs. updateConversationHistories opts calls (st\<lparr>conversationHistory := JArr []\<rparr>) =
                  Inr (st\<lparr>conversationHistory := JArr xs\<rparr>)
               \<and> xs = exchanges calls
               \<and> length xs = 2 * length calls
               \<and> (\<forall>i < 2 * length calls.
                     get_prop ''role'' (xs ! i) = JStr (if even i then ''user'' else ''assistant''))"
    by (simp add: length_exchanges role_exchanges)
qed

theorem updateConversationHistory_appends_pairs_witness:
  "0 \<le> maxHistoryLength default_options
   \<and> (maxHistoryLength default_options div 2 = 0
      \<or> int (length [(''Hi'', ''Hello!''), (''Is zinc safe?'', ''Yes.'')])
          \<le> maxHistoryLength default_options div 2)
   \<and> updateConversationHistories default_options
         [(''Hi'', ''Hello!''), (''Is zinc safe?'', ''Yes.'')]
         \<lparr>messages = [], conversationHistory = JArr []\<rparr>
       = Inr \<lparr>messages = [],
              conversationHistory =
                JArr [user_entry ''Hi'', assistant_entry ''Hello!'',
                      user_entry ''Is zinc safe?'', assistant_entry ''Yes.'']\<rparr>
   \<and> updateConversationHistory \<lparr>storageKey = ''k'', maxHistoryLength = 2\<rparr> ''Is zinc safe?'' ''Yes.''
         \<lparr>messages = [], conversationHistory = JArr [user_entry ''Hi'', assistant_entry ''Hello!'']\<rparr>
       = Inr \<lparr>messages = [],
              conversationHistory =
                JArr [user_entry ''Is zinc safe?'', assistant_entry ''Yes.'']\<rparr>"
proof -
  have c: "0 \<le> maxHistoryLength default_options" by (simp add: default_options_def)
  have "updateConversationHistory \<lparr>storageKey = ''k'', maxHistoryLength = 2\<rparr> ''Is zinc safe?'' ''Yes.''
         \<lparr>messages = [], conversationHistory = JArr [user_entry ''Hi'', assistant_entry ''Hello!'']\<rparr>
       = Inr \<lparr>messages = [],
              conversationHistory =
                JArr [user_entry ''Is zinc safe?'', assistant_entry ''Yes.'']\<rparr>"
    by (simp add: updateConversationHistory_def iterate_def append_exchange_def js_slice_def)
  then show ?thesis
    using updateConversationHistory_appends_pairs[OF c, where calls = "[(''Hi'', ''Hello!''), (''Is zinc safe?'', ''Yes.'')]"
                     and st = "\<lparr>messages = [], conversationHistory = JArr []\<rparr>"]
    by (simp add: default_options_def)
qed

text \<open>
  Claim C3 as stated fails for a negative cap: the slice start is then positive and removes
  entries from the front, the pair just appended included. With the cap \<open>-2\<close> a call on the
  empty log leaves the empty log.
\<close>

theorem updateConversationHistory_negative_cap_counterexample:
  "updateConversationHistory \<lparr>storageKey = ''skincare-chat-history'', maxHistoryLength = - 2\<rparr>
     ''Hi'' ''Hello!'' \<lparr>messages = [], conversationHistory = JArr []\<rparr>
   = Inr \<lparr>messages = [], conversationHistory = JArr []\<rparr>"
  by (simp add: updateConversationHistory_def iterate_def append_exchange_def js_slice_def)

text \<open>
  Claim C4. When the exchange log exceeds its cap, the oldest whole pairs are evicted, and
  after every call the log holds the most recent whole pairs and never more entries than
  the cap. The code does not do this when the cap is \<open>1\<close> (or \<open>0\<close>): the cap in exchanges
  is \<open>0\<close>, the eviction branch calls \<open>slice(-0)\<close> and keeps the whole array, so already the
  first call leaves two entries under a cap of one.
\<close>

theorem updateConversationHistory_cap_1_exceeds_cap:
  "updateConversationHistory \<lparr>storageKey = ''skincare-chat-history'', maxHistoryLength = 1\<rparr>
     ''Hi'' ''Hello!'' \<lparr>messages = [], conversationHistory = JArr []\<rparr>
   = Inr \<lparr>messages = [],
          conversationHistory = JArr [user_entry ''Hi'', assistant_entry ''Hello!'']\<rparr>
   \<and> int (length [user_entry ''Hi'', assistant_entry ''Hello!'']) > 1"
  by (simp add: updateConversationHistory_def iterate_def append_exchange_def js_slice_def)

text \<open>
  Claim C5. Starting from the empty exchange log, after every sequence of
  \<open>updateConversationHistory\<close> calls and for every cap the log has even length (and is made
  of whole user/assistant pairs).
\<close>

theorem exchange_log_length_even:
  "\<exists>xs. updateConversationHistories opts calls (st\<lparr>conversationHistory := JArr []\<rparr>) =
          Inr (st\<lparr>conversationHistory := JArr xs\<rparr>)
        \<and> even (length xs) \<and> whole_pairs xs"
  using histories_whole_pairs[where prev="[]" and opts=opts and calls=calls and st=st]
        whole_pairs_even by auto

theorem exchange_log_length_even_witness:
  "updateConversationHistories \<lparr>storageKey = ''k'', maxHistoryLength = 3\<rparr>
     [(''a'', ''b''), (''c'', ''d''), (''e'', ''f'')]
     \<lparr>messages = [], conversationHistory = JArr []\<rparr>
   = Inr \<lparr>messages = [],
          conversationHistory = JArr [user_entry ''e'', assistant_entry ''f'']\<rparr>
   \<and> even (length [user_entry ''e'', assistant_entry ''f''])"
  using exchange_log_length_even
          [where opts = "\<lparr>storageKey = ''k'', maxHistoryLength = 3\<rparr>"
             and calls = "[(''a'', ''b''), (''c'', ''d''), (''e'', ''f'')]"
             and st = "\<lparr>messages = [], conversationHistory = JArr []\<rparr>"]
  by (simp add: updateConversationHistory_def iterate_def append_exchange_def js_slice_def)

text \<open>
  Claim C10. When \<open>maxHistoryLength\<close> is \<open>0\<close> or \<open>1\<close> the eviction branch is taken and slices
  with \<open>-0\<close>, which keeps the whole array: starting from the empty log, \<open>N\<close> calls leave
  exactly \<open>2N\<close> entries, for every \<open>N\<close>.
\<close>

theorem exchange_log_unbounded_cap_0_1:
  assumes "maxHistoryLength opts = 0 \<or> maxHistoryLength opts = 1"
  shows "int (length (prev @ [user_entry u, assistant_entry b])) > (maxHistoryLength opts div 2) * 2
       \<and> - (maxHistoryLength opts div 2) * 2 = 0
       \<and> append_exchange opts u b prev = js_slice 0 (prev @ [user_entry u, assistant_entry b])
       \<and> js_slice 0 (prev @ [user_entry u, assistant_entry b]) = prev @ [user_entry u, assistant_entry b]
       \<and> (\<exists>xs. updateConversationHistories opts calls (st\<lparr>conversationHistory := JArr []\<rparr>) =
                  Inr (st\<lparr>conversationHistory := JArr xs\<rparr>)
               \<and> xs = exchanges calls \<and> length xs = 2 * length calls)"
proof -
  have "maxHistoryLength opts div 2 = 0" using assms by auto
  then show ?thesis
    using histories_zero[OF assms, where calls=calls and st=st and prev="[]"] append_exchange_zero[OF assms, of u b prev]
    by (simp add: js_slice_zero length_exchanges)
qed

theorem exchange_log_unbounded_cap_0_1_witness:
  "(maxHistoryLength \<lparr>storageKey = ''k'', maxHistoryLength = 1\<rparr> = 0
      \<or> maxHistoryLength \<lparr>storageKey = ''k'', maxHistoryLength = 1\<rparr> = 1)
   \<and> updateConversationHistories \<lparr>storageKey = ''k'', maxHistoryLength = 1\<rparr>
         [(''a'', ''b''), (''c'', ''d''), (''e'', ''f'')]
         \<lparr>messages = [], conversationHistory = JArr []\<rparr>
       = Inr \<lparr>messages = [],
              conversationHistory =
                JArr [user_entry ''a'', assistant_entry ''b'', user_entry ''c'',
                      assistant_entry ''d'', user_entry ''e'', assistant_entry ''f'']\<rparr>"
  using exchange_log_unbounded_cap_0_1
          [where opts = "\<lparr>storageKey = ''k'', maxHistoryLength = 1\<rparr>"
             and calls = "[(''a'', ''b''), (''c'', ''d''), (''e'', ''f'')]"
             and st = "\<lparr>messages = [], conversationHistory = JArr []\<rparr>"]
  by simp

subsection \<open>Restoring from storage\<close>

lemma update_map_values:
  assumes "distinct (map fst ps)" "map_of ps k = Some v0"
  shows "AList.update k v (map (\<lambda>p. (fst p, f (snd p))) ps)
         = map (\<lambda>p. if fst p = k then (k, v) else (fst p, f (snd p))) ps"
  using assms
proof (induction ps)
  case Nil
  then show ?case by simp
next
  case (Cons p ps)
  show ?case
  proof (cases "fst p = k")
    case True
    with Cons.prems have "k \<notin> fst ` set ps" by simp
    then have "\<forall>q \<in> set ps. fst q \<noteq> k" by (metis imageI)
    then have "map (\<lambda>p. if fst p = k then (k, v) else (fst p, f (snd p))) ps
               = map (\<lambda>p. (fst p, f (snd p))) ps"
      by (intro map_cong) auto
    with True show ?thesis by simp
  next
    case False
    with Cons show ?thesis by simp
  qed
qed

lemma map_of_mapped:
  "map_of (map (\<lambda>p. (fst p, f (snd p))) ps) k = map_option f (map_of ps k)"
  by (induction ps) simp_all

lemma Message_field_toJSON:
  assumes "Message_field p" "fst p \<noteq> ''timestamp''"
  shows "toJSON f (snd p) = snd p"
  using assms by (cases p) (auto simp: Message_field_def)

lemma Message_field_defined:
  assumes "Message_field p"
  shows "toJSON f (snd p) \<noteq> JUndefined"
proof -
  obtain k v where p: "p = (k, v)" by (cases p)
  from assms p consider s where "v = JStr s" | t where "v = JDate t" | b where "v = JBool b"
    by (auto simp: Message_field_def)
  then show ?thesis
  proof cases
    case 1
    with p show ?thesis by simp
  next
    case 2
    with p show ?thesis by (cases t) simp_all
  next
    case 3
    with p show ?thesis by simp
  qed
qed

lemma Message_fields_filter:
  assumes "list_all Message_field ps"
  shows "filter (\<lambda>p. snd p \<noteq> JUndefined) (map (\<lambda>p. (fst p, toJSON f (snd p))) ps)
         = map (\<lambda>p. (fst p, toJSON f (snd p))) ps"
  using assms by (induction ps) (simp_all add: Message_field_defined)

lemma Message_timestamp:
  assumes "list_all Message_field ps" "''timestamp'' \<in> fst ` set ps"
  shows "\<exists>t. map_of ps ''timestamp'' = Some (JDate t)"
proof -
  from assms(2) obtain v where v: "map_of ps ''timestamp'' = Some v"
    by (metis domD dom_map_of_conv_image_fst)
  then have "(''timestamp'', v) \<in> set ps" by (rule map_of_SomeD)
  with assms(1) have "Message_field (''timestamp'', v)" by (simp add: list_all_iff)
  then obtain t where "v = JDate t" by (auto simp: Message_field_def)
  with v show ?thesis by simp
qed

lemma revive_toJSON:
  assumes m: "is_Message m"
      and d: "\<And>t. get_prop ''timestamp'' m = JDate (Some t) \<Longrightarrow> date_round_trip P t"
  shows "revive P (toJSON (toISOString P) m) = Inr (restored m)"
proof -
  from m obtain ps where ps: "m = JObj ps" by (cases m) (simp_all add: is_Message_def)
  with m have dist: "distinct (map fst ps)" and fields: "list_all Message_field ps"
    and has: "''timestamp'' \<in> fst ` set ps"
    by (simp_all add: is_Message_def)
  from Message_timestamp[OF fields has] obtain t where t: "map_of ps ''timestamp'' = Some (JDate t)"
    by blast
  define ps' where "ps' = map (\<lambda>p. (fst p, toJSON (toISOString P) (snd p))) ps"
  have img: "toJSON (toISOString P) m = JObj ps'"
    using ps fields by (simp add: Message_fields_filter ps'_def)
  have look: "map_of ps' ''timestamp'' = Some (toJSON (toISOString P) (JDate t))"
    using t map_of_mapped[of "toJSON (toISOString P)" ps "''timestamp''"] by (simp add: ps'_def)
  define t' where "t' = (case t of Some x \<Rightarrow> x | None \<Rightarrow> 0)"
  have nd: "new_Date P (toJSON (toISOString P) (JDate t)) = Inr (Some t')"
  proof (cases t)
    case None
    then show ?thesis by (simp add: new_Date_def t'_def)
  next
    case (Some x)
    with t ps have "get_prop ''timestamp'' m = JDate (Some x)" by (simp add: get_prop_def)
    from d[OF this] Some show ?thesis by (simp add: new_Date_def t'_def date_round_trip_def)
  qed
  have upd: "AList.update ''timestamp'' (JDate (Some t')) ps'
             = map (\<lambda>p. if fst p = ''timestamp'' then (''timestamp'', JDate (Some t'))
                          else (fst p, toJSON (toISOString P) (snd p))) ps"
    unfolding ps'_def using dist t by (rule update_map_values)
  have fin: "map (\<lambda>p. if fst p = ''timestamp'' then (''timestamp'', JDate (Some t'))
                        else (fst p, toJSON (toISOString P) (snd p))) ps
             = map (\<lambda>p. if fst p = ''timestamp'' then (fst p, restored_timestamp (snd p)) else p) ps"
  proof (rule map_cong[OF refl])
    fix p assume p: "p \<in> set ps"
    show "(if fst p = ''timestamp'' then (''timestamp'', JDate (Some t'))
           else (fst p, toJSON (toISOString P) (snd p)))
          = (if fst p = ''timestamp'' then (fst p, restored_timestamp (snd p)) else p)"
    proof (cases "fst p = ''timestamp''")
      case True
      with p have "(''timestamp'', snd p) \<in> set ps" by (metis prod.collapse)
      with dist t have "snd p = JDate t" by (metis map_of_is_SomeI option.inject)
      with True show ?thesis by (cases t) (simp_all add: restored_timestamp_def t'_def)
    next
      case False
      from fields p have "Message_field p" by (simp add: list_all_iff)
      from Message_field_toJSON[OF this False] False show ?thesis by simp
    qed
  qed
  show ?thesis
    unfolding img
    by (simp add: revive_def get_timestamp_def get_prop_def look nd spread_def upd fin restored_def ps)
qed

lemma restore_list:
  assumes "list_all is_Message ms" "list_all (date_round_trip P) (timestamps ms)"
  shows "Array_map (revive P)
           (map (\<lambda>x. case toJSON (toISOString P) x of JUndefined \<Rightarrow> JNull | y \<Rightarrow> y) ms)
         = Inr (map restored ms)"
  using assms
proof (induction ms)
  case Nil
  then show ?case by simp
next
  case (Cons m ms)
  from Cons.prems(1) have m: "is_Message m" and ms: "list_all is_Message ms" by simp_all
  from Cons.prems(2) have d: "\<And>t. get_prop ''timestamp'' m = JDate (Some t) \<Longrightarrow> date_round_trip P t"
    and ds: "list_all (date_round_trip P) (timestamps ms)"
    by (simp_all add: timestamps_def)
  have r: "revive P (toJSON (toISOString P) m) = Inr (restored m)"
    using m d by (rule revive_toJSON)
  from m obtain ps where "m = JObj ps" by (cases m) (simp_all add: is_Message_def)
  then have "(case toJSON (toISOString P) m of JUndefined \<Rightarrow> JNull | y \<Rightarrow> y) = toJSON (toISOString P) m"
    by simp
  with r Cons.IH[OF ms ds] show ?case by simp
qed

lemma initial_messages_round_trip:
  assumes "accessible ls"
      and "items ls (messages_key opts) = Some (JSON_stringify P (JArr ms))"
      and "json_round_trip P (JArr ms)"
      and "list_all is_Message ms"
      and "list_all (date_round_trip P) (timestamps ms)"
  shows "initial_messages P opts e ls = Inr (map restored ms)"
  using assms(1-3) restore_list[OF assms(4,5)]
  by (simp add: initial_messages_def getItem_def json_round_trip_def parsed_map_def)

lemma toJSON_ChatMessage: "is_ChatMessage c \<Longrightarrow> toJSON f c = c"
  by (auto simp: is_ChatMessage_def)

lemma toJSON_ChatMessages:
  assumes "list_all is_ChatMessage h"
  shows "toJSON f (JArr h) = JArr h"
proof -
  have "map (\<lambda>x. case toJSON f x of JUndefined \<Rightarrow> JNull | y \<Rightarrow> y) h = h"
    using assms
  proof (induction h)
    case Nil
    then show ?case by simp
  next
    case (Cons c h)
    then have "is_ChatMessage c" by simp
    then have "(case toJSON f c of JUndefined \<Rightarrow> JNull | y \<Rightarrow> y) = c"
      by (auto simp: is_ChatMessage_def)
    with Cons show ?case by simp
  qed
  then show ?thesis by simp
qed

lemma initial_conversation_round_trip:
  assumes "accessible ls"
      and "items ls (conversation_key opts) = Some (JSON_stringify P (JArr h))"
      and "json_round_trip P (JArr h)"
      and "list_all is_ChatMessage h"
  shows "initial_conversation P opts ls = Inr (JArr h)"
  using assms(1-3) toJSON_ChatMessages[OF assms(4), of "toISOString P"]
  by (simp add: initial_conversation_def getItem_def json_round_trip_def)

lemma keys_differ: "messages_key opts \<noteq> conversation_key opts"
  by (simp add: messages_key_def conversation_key_def)

lemma run_effects_ok:
  assumes "accessible ls" "\<not> quota_exceeded ls"
  shows "run_effects P opts st ls =
         Inr (ls\<lparr>items := (items ls)
                (messages_key opts \<mapsto> JSON_stringify P (JArr (messages st)),
                 conversation_key opts \<mapsto> JSON_stringify P (conversationHistory st))\<rparr>)"
  using assms
  by (simp add: run_effects_def persist_messages_def persist_conversation_def setItem_def)


lemma map_of_restored:
  "map_of (map (\<lambda>p. if fst p = k' then (fst p, g (snd p)) else p) ps) k
   = (if k = k' then map_option g (map_of ps k) else map_of ps k)"
  by (induction ps) auto

lemma get_prop_restored:
  "k \<noteq> ''timestamp'' \<Longrightarrow> get_prop k (restored m) = get_prop k m"
  by (cases m) (simp_all add: restored_def get_prop_def map_of_restored)

lemma timestamp_restored:
  assumes "is_Message m"
  shows "\<exists>t. get_prop ''timestamp'' (restored m) = JDate (Some t)
            \<and> (get_prop ''timestamp'' m = JDate (Some t) \<or> (get_prop ''timestamp'' m = JDate None \<and> t = 0))"
proof -
  from assms obtain ps where ps: "m = JObj ps" by (cases m) (simp_all add: is_Message_def)
  with assms have "list_all Message_field ps" "''timestamp'' \<in> fst ` set ps"
    by (simp_all add: is_Message_def)
  from Message_timestamp[OF this] obtain t where "map_of ps ''timestamp'' = Some (JDate t)" by blast
  with ps show ?thesis
    by (cases t) (simp_all add: restored_def get_prop_def map_of_restored restored_timestamp_def)
qed

lemma restored_same_fields:
  assumes "list_all is_Message ms"
  shows "list_all2 (\<lambda>m r. get_prop ''id'' r = get_prop ''id'' m
                        \<and> get_prop ''content'' r = get_prop ''content'' m
                        \<and> get_prop ''sender'' r = get_prop ''sender'' m
                        \<and> (\<exists>t. get_prop ''timestamp'' r = JDate (Some t)))
           ms (map restored ms)"
  using assms
proof (induction ms)
  case Nil
  then show ?case by simp
next
  case (Cons m ms)
  then have "is_Message m" by simp
  from timestamp_restored[OF this] Cons show ?case
    by (auto simp: get_prop_restored)
qed

lemma initialize_empty:
  assumes "accessible ls" "items ls (messages_key opts) = None" "items ls (conversation_key opts) = None"
  shows "initialize P opts e ls = Inr (fresh_chat e)"
  using assms
  by (simp add: initialize_def initial_messages_def initial_conversation_def getItem_def fresh_chat_def)

lemma initialize_accessible:
  assumes "accessible ls"
  shows "\<exists>st. initialize P opts e ls = Inr st"
  using assms
  by (auto simp: initialize_def initial_messages_def initial_conversation_def getItem_def
      split: option.splits sum.splits)


lemma not_a_message_array:
  "\<not> (\<exists>ms. list_all is_Message ms \<and> toJSON f (JArr ms) = JArr [JObj []])"
proof
  assume "\<exists>ms. list_all is_Message ms \<and> toJSON f (JArr ms) = JArr [JObj []]"
  then obtain ms where ms: "list_all is_Message ms" "toJSON f (JArr ms) = JArr [JObj []]" by blast
  from ms(2) obtain m where m: "ms = [m]"
    and eq: "(case toJSON f m of JUndefined \<Rightarrow> JNull | y \<Rightarrow> y) = JObj []"
    by (cases ms) auto
  from ms(1) m have im: "is_Message m" by simp
  then obtain ps where ps: "m = JObj ps" by (cases m) (simp_all add: is_Message_def)
  with im have f: "list_all Message_field ps" and "''id'' \<in> fst ` set ps"
    by (simp_all add: is_Message_def)
  then have "ps \<noteq> []" by auto
  with eq ps Message_fields_filter[OF f, of f] show False by simp
qed

lemma new_Date_throws:
  "new_Date P v = (if ToPrimitive_throws v then Inl TypeError else Inr (the_Date P v))"
  by (cases v) (simp_all add: new_Date_def the_Date_def)

lemma revive_revivable: "revivable msg \<Longrightarrow> revive P msg = Inr (revived P msg)"
  by (cases msg)
     (simp_all add: revivable_def revive_def revived_def get_timestamp_def new_Date_throws)

lemma revive_not_revivable: "\<not> revivable msg \<Longrightarrow> revive P msg = Inl TypeError"
  by (cases msg)
     (simp_all add: revivable_def revive_def get_timestamp_def new_Date_throws)

lemma Array_map_revive:
  "Array_map (revive P) xs =
     (if list_all revivable xs then Inr (map (revived P) xs) else Inl TypeError)"
proof (induction xs)
  case Nil
  then show ?case by simp
next
  case (Cons x xs)
  show ?case
  proof (cases "revivable x")
    case True
    with Cons show ?thesis by (simp add: revive_revivable)
  next
    case False
    then show ?thesis by (simp add: revive_not_revivable)
  qed
qed

lemma parsed_map_array:
  "parsed_map P (JArr xs) =
     (if list_all revivable xs then Inr (map (revived P) xs) else Inl TypeError)"
  by (simp add: parsed_map_def Array_map_revive)

lemma parsed_map_not_array: "(\<forall>xs. v \<noteq> JArr xs) \<Longrightarrow> parsed_map P v = Inl TypeError"
  by (cases v) (simp_all add: parsed_map_def)

lemma initial_conversation_accessible:
  assumes "accessible ls"
  shows "\<exists>h. initial_conversation P opts ls = Inr h"
  using assms
  by (auto simp: initial_conversation_def getItem_def split: option.splits)

lemma initial_messages_absent:
  assumes "accessible ls" and "items ls (messages_key opts) = None"
  shows "initial_messages P opts e ls = Inr [welcome_message e]"
  using assms by (simp add: initial_messages_def getItem_def)

lemma initial_messages_falls_back:
  assumes "accessible ls"
      and "items ls (messages_key opts) = Some s"
      and "s = [] \<or> JSON_parse P s = None
           \<or> (\<exists>v. JSON_parse P s = Some v \<and> (\<forall>xs. v \<noteq> JArr xs))
           \<or> (\<exists>xs. JSON_parse P s = Some (JArr xs) \<and> \<not> list_all revivable xs)"
  shows "initial_messages P opts e ls = Inr [welcome_message e]"
proof (cases "s = []")
  case True
  with assms(1,2) show ?thesis by (simp add: initial_messages_def getItem_def)
next
  case nonempty: False
  show ?thesis
  proof (cases "JSON_parse P s")
    case None
    with assms(1,2) show ?thesis by (simp add: initial_messages_def getItem_def)
  next
    case (Some v)
    show ?thesis
    proof (cases "\<exists>xs. v = JArr xs")
      case True
      then obtain xs where xs: "v = JArr xs" ..
      with Some nonempty assms(3) have "\<not> list_all revivable xs" by simp
      with xs Some nonempty assms(1,2) show ?thesis
        by (simp add: initial_messages_def getItem_def parsed_map_array)
    next
      case False
      then have "\<forall>xs. v \<noteq> JArr xs" by simp
      from parsed_map_not_array[OF this, of P] Some nonempty assms(1,2) show ?thesis
        by (simp add: initial_messages_def getItem_def)
    qed
  qed
qed

lemma initial_messages_restores:
  assumes "accessible ls"
      and "items ls (messages_key opts) = Some s"
      and "s \<noteq> []" "JSON_parse P s = Some (JArr xs)" "list_all revivable xs"
  shows "initial_messages P opts e ls = Inr (map (revived P) xs)"
  using assms by (simp add: initial_messages_def getItem_def parsed_map_array)

lemma initial_conversation_empty:
  assumes "accessible ls"
      and "case items ls (conversation_key opts) of
             None \<Rightarrow> True | Some s' \<Rightarrow> s' = [] \<or> JSON_parse P s' = None"
  shows "initial_conversation P opts ls = Inr (JArr [])"
proof (cases "items ls (conversation_key opts)")
  case None
  with assms(1) show ?thesis by (simp add: initial_conversation_def getItem_def)
next
  case (Some s')
  with assms(2) have "s' = [] \<or> JSON_parse P s' = None" by simp
  then show ?thesis
  proof
    assume "s' = []"
    with Some assms(1) show ?thesis by (simp add: initial_conversation_def getItem_def)
  next
    assume "JSON_parse P s' = None"
    with Some assms(1) show ?thesis by (simp add: initial_conversation_def getItem_def)
  qed
qed

lemma initial_conversation_restores:
  assumes "accessible ls"
      and "items ls (conversation_key opts) = Some s'" "s' \<noteq> []" "JSON_parse P s' = Some v"
  shows "initial_conversation P opts ls = Inr v"
  using assms by (simp add: initial_conversation_def getItem_def)

text \<open>
  Claim C7, as amended. When storage can be read the initialisers raise nothing. When the
  messages key holds nothing, or a string that is empty, or that \<open>JSON.parse\<close> rejects, or that
  parses to something that is not an array, or to an array with an element on which the
  restore callback throws (\<open>null\<close>, or a timestamp that cannot be converted to a primitive),
  they give exactly the default welcome message (identifier \<open>initial\<close>, sender \<open>bot\<close>),
  whatever the conversation entry holds. Every other parsed array is restored element by element
  with no check of its shape. A conversation entry that is absent, empty or rejected by
  \<open>JSON.parse\<close> gives the empty exchange log; every other conversation entry gives the parsed
  value as it is.
\<close>

theorem initialize_falls_back_on_parse_failure:
  assumes "accessible ls"
  shows "((case items ls (messages_key opts) of
             None \<Rightarrow> True
           | Some s \<Rightarrow> s = [] \<or> JSON_parse P s = None
                \<or> (\<exists>v. JSON_parse P s = Some v \<and> (\<forall>xs. v \<noteq> JArr xs))
                \<or> (\<exists>xs. JSON_parse P s = Some (JArr xs) \<and> \<not> list_all revivable xs))
          \<longrightarrow> initial_messages P opts e ls = Inr [welcome_message e]
              \<and> (\<exists>h. initial_conversation P opts ls = Inr h
                    \<and> initialize P opts e ls
                        = Inr \<lparr>messages = [welcome_message e], conversationHistory = h\<rparr>))
       \<and> (\<forall>s xs. items ls (messages_key opts) = Some s \<and> s \<noteq> []
                   \<and> JSON_parse P s = Some (JArr xs) \<and> list_all revivable xs
              \<longrightarrow> initial_messages P opts e ls = Inr (map (revived P) xs))
       \<and> ((case items ls (conversation_key opts) of
              None \<Rightarrow> True
            | Some s' \<Rightarrow> s' = [] \<or> JSON_parse P s' = None)
           \<longrightarrow> initial_conversation P opts ls = Inr (JArr []))
       \<and> (\<forall>s' v. items ls (conversation_key opts) = Some s' \<and> s' \<noteq> []
                  \<and> JSON_parse P s' = Some v
              \<longrightarrow> initial_conversation P opts ls = Inr v)
       \<and> (\<exists>st. initialize P opts e ls = Inr st)
       \<and> get_prop ''id'' (welcome_message e) = JStr ''initial''
       \<and> get_prop ''sender'' (welcome_message e) = JStr ''bot''"
proof (intro conjI impI allI)
  assume bad: "case items ls (messages_key opts) of
             None \<Rightarrow> True
           | Some s \<Rightarrow> s = [] \<or> JSON_parse P s = None
                \<or> (\<exists>v. JSON_parse P s = Some v \<and> (\<forall>xs. v \<noteq> JArr xs))
                \<or> (\<exists>xs. JSON_parse P s = Some (JArr xs) \<and> \<not> list_all revivable xs)"
  show m: "initial_messages P opts e ls = Inr [welcome_message e]"
  proof (cases "items ls (messages_key opts)")
    case None
    with assms show ?thesis by (rule initial_messages_absent)
  next
    case (Some s)
    with bad have "s = [] \<or> JSON_parse P s = None
                \<or> (\<exists>v. JSON_parse P s = Some v \<and> (\<forall>xs. v \<noteq> JArr xs))
                \<or> (\<exists>xs. JSON_parse P s = Some (JArr xs) \<and> \<not> list_all revivable xs)"
      by simp
    with assms Some show ?thesis by (rule initial_messages_falls_back)
  qed
  obtain h where h: "initial_conversation P opts ls = Inr h"
    using initial_conversation_accessible[OF assms] ..
  with m have "initialize P opts e ls
                 = Inr \<lparr>messages = [welcome_message e], conversationHistory = h\<rparr>"
    by (simp add: initialize_def)
  with h show "\<exists>h. initial_conversation P opts ls = Inr h
                  \<and> initialize P opts e ls
                      = Inr \<lparr>messages = [welcome_message e], conversationHistory = h\<rparr>"
    by (intro exI conjI)
next
  fix s xs
  assume "items ls (messages_key opts) = Some s \<and> s \<noteq> []
            \<and> JSON_parse P s = Some (JArr xs) \<and> list_all revivable xs"
  then have "items ls (messages_key opts) = Some s" "s \<noteq> []"
    "JSON_parse P s = Some (JArr xs)" "list_all revivable xs"
    by blast+
  with assms show "initial_messages P opts e ls = Inr (map (revived P) xs)"
    by (rule initial_messages_restores)
next
  assume "case items ls (conversation_key opts) of
            None \<Rightarrow> True | Some s' \<Rightarrow> s' = [] \<or> JSON_parse P s' = None"
  with assms show "initial_conversation P opts ls = Inr (JArr [])"
    by (rule initial_conversation_empty)
next
  fix s' v
  assume "items ls (conversation_key opts) = Some s' \<and> s' \<noteq> [] \<and> JSON_parse P s' = Some v"
  then have "items ls (conversation_key opts) = Some s'" "s' \<noteq> []" "JSON_parse P s' = Some v"
    by blast+
  with assms show "initial_conversation P opts ls = Inr v"
    by (rule initial_conversation_restores)
next
  show "\<exists>st. initialize P opts e ls = Inr st"
    using assms by (rule initialize_accessible)
qed (simp_all add: welcome_message_props)

theorem initialize_falls_back_on_parse_failure_witness:
  "accessible example_storage
   \<and> JSON_parse example_platform ''<html>'' = None
   \<and> JSON_parse example_platform ''{}'' = Some (JObj [])
   \<and> JSON_parse example_platform ''[{timestamp:{toString:1}}]''
       = Some (JArr [JObj [(''timestamp'', JObj [(''toString'', JNum 1)])]])
   \<and> \<not> list_all revivable [JObj [(''timestamp'', JObj [(''toString'', JNum 1)])]]
   \<and> initialize example_platform default_options example_env
        (example_storage\<lparr>items := [messages_key default_options \<mapsto> ''<html>'']\<rparr>)
      = Inr (fresh_chat example_env)
   \<and> initialize example_platform default_options example_env
        (example_storage\<lparr>items := [messages_key default_options \<mapsto> ''{}'',
                                    conversation_key default_options \<mapsto> ''<html>'']\<rparr>)
      = Inr (fresh_chat example_env)
   \<and> initialize example_platform default_options example_env
        (example_storage\<lparr>items :=
           [messages_key default_options \<mapsto> ''[{timestamp:{toString:1}}]'',
            conversation_key default_options
              \<mapsto> ''[{role:user,content:Hi},{role:assistant,content:Hello!}]'']\<rparr>)
      = Inr \<lparr>messages = [welcome_message example_env],
             conversationHistory = JArr [user_entry ''Hi'', assistant_entry ''Hello!'']\<rparr>"
proof -
  let ?ls1 = "example_storage\<lparr>items := [messages_key default_options \<mapsto> ''<html>'']\<rparr>"
  let ?ls2 = "example_storage\<lparr>items := [messages_key default_options \<mapsto> ''{}'',
                                    conversation_key default_options \<mapsto> ''<html>'']\<rparr>"
  let ?ls3 = "example_storage\<lparr>items :=
           [messages_key default_options \<mapsto> ''[{timestamp:{toString:1}}]'',
            conversation_key default_options
              \<mapsto> ''[{role:user,content:Hi},{role:assistant,content:Hello!}]'']\<rparr>"
  have a: "accessible example_storage" "accessible ?ls1" "accessible ?ls2" "accessible ?ls3"
    by (simp_all add: example_storage_def)
  have p: "JSON_parse example_platform ''<html>'' = None"
    and q: "JSON_parse example_platform ''{}'' = Some (JObj [])"
    and r: "JSON_parse example_platform ''[{timestamp:{toString:1}}]''
              = Some (JArr [JObj [(''timestamp'', JObj [(''toString'', JNum 1)])]])"
    and c: "JSON_parse example_platform ''[{role:user,content:Hi},{role:assistant,content:Hello!}]''
              = Some (JArr [user_entry ''Hi'', assistant_entry ''Hello!''])"
    by (simp_all add: example_platform_def example_parse_def)
  have n: "\<not> list_all revivable [JObj [(''timestamp'', JObj [(''toString'', JNum 1)])]]"
    by (simp add: revivable_def get_prop_def)
  have k: "messages_key default_options \<noteq> conversation_key default_options"
    by (rule keys_differ)
  have i1: "items ?ls1 (messages_key default_options) = Some ''<html>''"
    and j1: "items ?ls1 (conversation_key default_options) = None"
    and i2: "items ?ls2 (messages_key default_options) = Some ''{}''"
    and j2: "items ?ls2 (conversation_key default_options) = Some ''<html>''"
    and i3: "items ?ls3 (messages_key default_options) = Some ''[{timestamp:{toString:1}}]''"
    and j3: "items ?ls3 (conversation_key default_options)
               = Some ''[{role:user,content:Hi},{role:assistant,content:Hello!}]''"
    using k by (simp_all add: example_storage_def)
  have "initialize example_platform default_options example_env ?ls1 = Inr (fresh_chat example_env)"
    using initialize_falls_back_on_parse_failure[OF a(2), where opts = default_options and P = example_platform and e = example_env] i1 p j1
    by (auto simp: fresh_chat_def)
  moreover
  have "initialize example_platform default_options example_env ?ls2 = Inr (fresh_chat example_env)"
    using initialize_falls_back_on_parse_failure[OF a(3), where opts = default_options and P = example_platform and e = example_env] i2 p q j2
    by (auto simp: fresh_chat_def)
  moreover
  have "initialize example_platform default_options example_env ?ls3
          = Inr \<lparr>messages = [welcome_message example_env],
                 conversationHistory = JArr [user_entry ''Hi'', assistant_entry ''Hello!'']\<rparr>"
    using initialize_falls_back_on_parse_failure[OF a(4), where opts = default_options and P = example_platform and e = example_env] i3 r n c j3
    by auto
  ultimately show ?thesis using a(1) p q r n by simp
qed

text \<open>
  Claim C7 as stated fails for a malformed value that parses: the text \<open>[{}]\<close> is not the
  serialisation of a message array, yet it is restored as the message log (its one element
  given an invalid date), and the text \<open>{}\<close> under the conversation key becomes the
  exchange log as it is. Nothing validates the shape of what was parsed.
\<close>

theorem initialize_accepts_malformed_counterexample:
  "JSON_parse example_platform ''[{}]'' = Some (JArr [JObj []])
   \<and> \<not> (\<exists>ms. list_all is_Message ms
            \<and> toJSON (toISOString example_platform) (JArr ms) = JArr [JObj []])
   \<and> JSON_parse example_platform ''{}'' = Some (JObj [])
   \<and> initialize example_platform default_options example_env
        (example_storage\<lparr>items := [messages_key default_options \<mapsto> ''[{}]'',
                                    conversation_key default_options \<mapsto> ''{}'']\<rparr>)
      = Inr \<lparr>messages = [JObj [(''timestamp'', JDate None)]], conversationHistory = JObj []\<rparr>
   \<and> [JObj [(''timestamp'', JDate None)]] \<noteq> [welcome_message example_env]
   \<and> JObj [] \<noteq> JArr []"
proof -
  have "initialize example_platform default_options example_env
        (example_storage\<lparr>items := [messages_key default_options \<mapsto> ''[{}]'',
                                    conversation_key default_options \<mapsto> ''{}'']\<rparr>)
      = Inr \<lparr>messages = [JObj [(''timestamp'', JDate None)]], conversationHistory = JObj []\<rparr>"
    using keys_differ[of default_options]
    by (simp add: initialize_def initial_messages_def initial_conversation_def getItem_def
        example_storage_def example_platform_def example_parse_def parsed_map_def revive_def
        get_timestamp_def get_prop_def new_Date_def spread_def)
  then show ?thesis
    using not_a_message_array
    by (simp add: example_platform_def example_parse_def welcome_message_def)
qed

text \<open>
  Claim C8. For a session whose messages and exchanges have the shapes of \<open>Message\<close> and
  \<open>ChatMessage\<close>, writing both logs with the persistence effects and restoring them with
  the initialisers gives the same messages in the same order, each with the same
  identifier, content and sender and with a valid timestamp (the same time value, or the
  epoch where the original date was invalid), and the same exchange log. The browser is
  assumed to store what it is given and to read back what \<open>JSON.stringify\<close> and
  \<open>toISOString\<close> wrote.
\<close>

theorem session_round_trip:
  assumes "accessible ls" "\<not> quota_exceeded ls"
      and "list_all is_Message (messages st)"
      and "conversationHistory st = JArr h" "list_all is_ChatMessage h"
      and "json_round_trip P (JArr (messages st))" "json_round_trip P (JArr h)"
      and "list_all (date_round_trip P) (timestamps (messages st))"
  shows "\<exists>ls'. run_effects P opts st ls = Inr ls'
           \<and> initialize P opts e ls'
               = Inr \<lparr>messages = map restored (messages st), conversationHistory = JArr h\<rparr>
           \<and> list_all2 (\<lambda>m r. get_prop ''id'' r = get_prop ''id'' m
                              \<and> get_prop ''content'' r = get_prop ''content'' m
                              \<and> get_prop ''sender'' r = get_prop ''sender'' m
                              \<and> (\<exists>t. get_prop ''timestamp'' r = JDate (Some t)))
                 (messages st) (map restored (messages st))"
proof -
  define ls' where "ls' = ls\<lparr>items := (items ls)
                (messages_key opts \<mapsto> JSON_stringify P (JArr (messages st)),
                 conversation_key opts \<mapsto> JSON_stringify P (conversationHistory st))\<rparr>"
  have run: "run_effects P opts st ls = Inr ls'"
    unfolding ls'_def using assms(1,2) by (rule run_effects_ok)
  have acc: "accessible ls'" using assms(1) by (simp add: ls'_def)
  have im: "items ls' (messages_key opts) = Some (JSON_stringify P (JArr (messages st)))"
    using keys_differ[of opts] by (simp add: ls'_def)
  have ic: "items ls' (conversation_key opts) = Some (JSON_stringify P (JArr h))"
    using assms(4) by (simp add: ls'_def)
  have "initial_messages P opts e ls' = Inr (map restored (messages st))"
    using acc im assms(6,3,8) by (rule initial_messages_round_trip)
  moreover have "initial_conversation P opts ls' = Inr (JArr h)"
    using acc ic assms(7,5) by (rule initial_conversation_round_trip)
  ultimately have "initialize P opts e ls'
        = Inr \<lparr>messages = map restored (messages st), conversationHistory = JArr h\<rparr>"
    by (simp add: initialize_def)
  with run restored_same_fields[OF assms(3)] show ?thesis by blast
qed

theorem session_round_trip_witness:
  "accessible example_storage \<and> \<not> quota_exceeded example_storage
   \<and> list_all is_Message (messages example_session)
   \<and> json_round_trip example_platform (JArr (messages example_session))
   \<and> list_all (date_round_trip example_platform) (timestamps (messages example_session))
   \<and> (\<exists>ls'. run_effects example_platform default_options example_session example_storage = Inr ls'
            \<and> initialize example_platform default_options example_env ls' = Inr example_session)"
proof -
  have a: "accessible example_storage" "\<not> quota_exceeded example_storage"
    by (simp_all add: example_storage_def)
  have h: "conversationHistory example_session = JArr [user_entry ''Hi'', assistant_entry ''Hello!'']"
    by (simp add: example_session_def)
  from session_round_trip[OF a is_Message_example h example_history example_round_trip_messages
          example_round_trip_history example_timestamps, of default_options example_env]
  have "\<exists>ls'. run_effects example_platform default_options example_session example_storage = Inr ls'
            \<and> initialize example_platform default_options example_env ls' = Inr example_session"
    unfolding restored_example by (auto simp: example_session_def)
  with a is_Message_example example_round_trip_messages example_timestamps show ?thesis by blast
qed

subsection \<open>\<open>clearChat\<close>\<close>

lemma restored_cleared_welcome: "restored (cleared_welcome e) = cleared_welcome e"
  by (simp add: restored_def cleared_welcome_def restored_timestamp_def)

lemma timestamps_cleared_welcome: "timestamps [cleared_welcome e] = [current_time e]"
  by (simp add: timestamps_def cleared_welcome_props)

lemma clearChat_memory:
  "fst (snd (clearChat opts e st ls)) = \<lparr>messages = [cleared_welcome e], conversationHistory = JArr []\<rparr>"
  by (simp add: clearChat_def Let_def removeItem_def)


lemma clearChat_ok:
  assumes "accessible ls"
  shows "clearChat opts e st ls =
         (Returned (), \<lparr>messages = [cleared_welcome e], conversationHistory = JArr []\<rparr>,
          ls\<lparr>items := (items ls)(messages_key opts := None, conversation_key opts := None)\<rparr>)"
  using assms by (simp add: clearChat_def Let_def removeItem_def)

text \<open>
  Claim C6, as amended. With a working storage, \<open>clearChat\<close> returns, leaves exactly one
  message, the cleared welcome (sender \<open>bot\<close>, identifier \<open>initial-\<close> followed by the clock
  reading), and the empty exchange log, and removes both entries; initialising then gives
  a fresh session. The effects write the new state back, and initialising after that gives
  exactly the cleared welcome and the empty exchange log, whatever the session and the
  entries held before. The identifier differs from \<open>initial\<close>, from every identifier
  \<open>addMessage\<close> makes and from the identifier of a \<open>clearChat\<close> at any other clock reading.
\<close>

theorem clearChat_resets_session:
  assumes "accessible ls" "\<not> quota_exceeded ls"
      and "json_round_trip P (JArr [cleared_welcome e])" "json_round_trip P (JArr [])"
      and "date_round_trip P (current_time e)"
  shows "\<exists>ls1 ls2.
           clearChat opts e st ls
             = (Returned (), \<lparr>messages = [cleared_welcome e], conversationHistory = JArr []\<rparr>, ls1)
         \<and> items ls1 (messages_key opts) = None \<and> items ls1 (conversation_key opts) = None
         \<and> initialize P opts e' ls1 = Inr (fresh_chat e')
         \<and> run_effects P opts \<lparr>messages = [cleared_welcome e], conversationHistory = JArr []\<rparr> ls1
             = Inr ls2
         \<and> items ls2 (messages_key opts) = Some (JSON_stringify P (JArr [cleared_welcome e]))
         \<and> items ls2 (conversation_key opts) = Some (JSON_stringify P (JArr []))
         \<and> initialize P opts e' ls2
             = Inr \<lparr>messages = [cleared_welcome e], conversationHistory = JArr []\<rparr>
         \<and> get_prop ''id'' (cleared_welcome e) = JStr (''initial-'' @ int_toString (Date_now e))
         \<and> get_prop ''sender'' (cleared_welcome e) = JStr ''bot''
         \<and> ''initial-'' @ int_toString (Date_now e) \<noteq> ''initial''
         \<and> (\<forall>e'' :: env. ''initial-'' @ int_toString (Date_now e) \<noteq> new_id e'')
         \<and> (\<forall>e'' :: env. Date_now e'' \<noteq> Date_now e \<longrightarrow>
                 get_prop ''id'' (cleared_welcome e'') \<noteq> get_prop ''id'' (cleared_welcome e))"
proof -
  define st' where "st' = \<lparr>messages = [cleared_welcome e], conversationHistory = JArr []\<rparr>"
  define ls1 where "ls1 = ls\<lparr>items := (items ls)(messages_key opts := None, conversation_key opts := None)\<rparr>"
  define ls2 where "ls2 = ls1\<lparr>items := (items ls1)
                (messages_key opts \<mapsto> JSON_stringify P (JArr (messages st')),
                 conversation_key opts \<mapsto> JSON_stringify P (conversationHistory st'))\<rparr>"
  have acc1: "accessible ls1" "\<not> quota_exceeded ls1" using assms(1,2) by (simp_all add: ls1_def)
  have clear: "clearChat opts e st ls = (Returned (), st', ls1)"
    unfolding st'_def ls1_def using assms(1) by (rule clearChat_ok)
  have gone: "items ls1 (messages_key opts) = None" "items ls1 (conversation_key opts) = None"
    by (simp_all add: ls1_def)
  have init1: "initialize P opts e' ls1 = Inr (fresh_chat e')"
    using acc1(1) gone by (rule initialize_empty)
  have run: "run_effects P opts st' ls1 = Inr ls2"
    unfolding ls2_def using acc1 by (rule run_effects_ok)
  have acc2: "accessible ls2" using acc1 by (simp add: ls2_def)
  have im: "items ls2 (messages_key opts) = Some (JSON_stringify P (JArr [cleared_welcome e]))"
    using keys_differ[of opts] by (simp add: ls2_def st'_def)
  have ic: "items ls2 (conversation_key opts) = Some (JSON_stringify P (JArr []))"
    by (simp add: ls2_def st'_def)
  have "initial_messages P opts e' ls2 = Inr (map restored [cleared_welcome e])"
    using acc2 im assms(3)
    by (rule initial_messages_round_trip)
       (simp_all add: is_Message_cleared_welcome timestamps_cleared_welcome assms(5))
  moreover have "initial_conversation P opts ls2 = Inr (JArr [])"
    using acc2 ic assms(4) by (rule initial_conversation_round_trip) simp
  ultimately have init2: "initialize P opts e' ls2 = Inr st'"
    by (simp add: initialize_def restored_cleared_welcome st'_def)
  have ids: "''initial-'' @ int_toString (Date_now e) \<noteq> new_id e''" for e'' :: env
    using new_id_not_initial[of e'' "''-'' @ int_toString (Date_now e)"] by simp
  have inj: "Date_now e'' \<noteq> Date_now e \<Longrightarrow>
             get_prop ''id'' (cleared_welcome e'') \<noteq> get_prop ''id'' (cleared_welcome e)" for e'' :: env
    by (auto simp: cleared_welcome_props dest: int_toString_inj)
  show ?thesis
    using clear gone init1 run im ic init2 ids inj
    unfolding st'_def by (simp add: cleared_welcome_props)
qed

theorem clearChat_resets_session_witness:
  "accessible example_storage \<and> \<not> quota_exceeded example_storage
   \<and> json_round_trip example_platform (JArr [cleared_welcome example_env])
   \<and> json_round_trip example_platform (JArr [])
   \<and> date_round_trip example_platform (current_time example_env)
   \<and> (\<exists>ls1 ls2.
         clearChat default_options example_env example_session example_storage
           = (Returned (),
              \<lparr>messages = [cleared_welcome example_env], conversationHistory = JArr []\<rparr>, ls1)
       \<and> run_effects example_platform default_options
            \<lparr>messages = [cleared_welcome example_env], conversationHistory = JArr []\<rparr> ls1 = Inr ls2
       \<and> initialize example_platform default_options example_env ls2
           = Inr \<lparr>messages = [cleared_welcome example_env], conversationHistory = JArr []\<rparr>)"
proof -
  have a: "accessible example_storage" "\<not> quota_exceeded example_storage"
    by (simp_all add: example_storage_def)
  have d: "date_round_trip example_platform (current_time example_env)"
    using example_dates by (simp add: example_env_def)
  from clearChat_resets_session[OF a example_round_trip_cleared example_round_trip_empty d,
          of default_options example_session example_env]
  have "\<exists>ls1 ls2.
         clearChat default_options example_env example_session example_storage
           = (Returned (),
              \<lparr>messages = [cleared_welcome example_env], conversationHistory = JArr []\<rparr>, ls1)
       \<and> run_effects example_platform default_options
            \<lparr>messages = [cleared_welcome example_env], conversationHistory = JArr []\<rparr> ls1 = Inr ls2
       \<and> initialize example_platform default_options example_env ls2
           = Inr \<lparr>messages = [cleared_welcome example_env], conversationHistory = JArr []\<rparr>"
    by blast
  with a d example_round_trip_cleared example_round_trip_empty show ?thesis by blast
qed

text \<open>
  Claim C6 as stated fails: a second \<open>clearChat\<close> that reads the same clock value gives the
  cleared welcome the identifier the log already holds.
\<close>

theorem clearChat_id_reused_counterexample:
  "map (get_prop ''id'')
     (messages (fst (snd (clearChat default_options example_env example_session example_storage))))
   = [JStr ''initial-1730534400000'']
   \<and> map (get_prop ''id'')
       (messages (fst (snd (clearChat default_options example_env
          (fst (snd (clearChat default_options example_env example_session example_storage)))
          (snd (snd (clearChat default_options example_env example_session example_storage)))))))
   = [JStr ''initial-1730534400000'']"
  by (simp add: clearChat_memory cleared_welcome_props example_env_def int_toString_def
      decimal_small decimal_large digit_char_def)

subsection \<open>Storage failures\<close>








end
